theory Spec2Isabelle
  imports Complex_Main "HOL-Library.Word" "HOL-Library.Monad_Syntax"
begin

unbundle bit_operations_syntax

section \<open>PZEM004T V3.0 sensor driver: the Modbus-RTU protocol engine\<close>

text \<open>
  A shallow embedding of \<^verbatim>\<open>code/espurna/sensors/PZEM004TV30Sensor.h\<close>.
  \<^item> \<^verbatim>\<open>uint8_t\<close>, \<^verbatim>\<open>uint16_t\<close> and \<^verbatim>\<open>uint32_t\<close> are words; \<^verbatim>\<open>size_t\<close> counters, which
    stay far below \<open>2 ^ 32\<close>, are natural numbers; the \<^verbatim>\<open>int\<close> returned by
    \<^verbatim>\<open>Stream::read()\<close> is an integer.
  \<^item> \<^verbatim>\<open>double\<close> is modelled by \<open>real\<close>: the arithmetic is the source's, rounding is not
    modelled.
  \<^item> \<^verbatim>\<open>std::array<uint8_t, BufferSize>\<close> is a list of \<open>BufferSize\<close> bytes. A write
    through \<^verbatim>\<open>operator[]\<close> outside the array is undefined behaviour in the source; in the
    model every write goes through \<open>store\<close>, and the result \<open>None\<close> says that the
    source writes out of bounds.
  \<^item> Objects that the source leaves uninitialised (a local \<^verbatim>\<open>buffer_type buffer;\<close>, a local
    \<^verbatim>\<open>Reading out;\<close>, members without an initialiser) start from arbitrary contents that
    the model takes as an explicit argument.
\<close>

subsection \<open>Machine types and constants\<close>

type_synonym u8 = "8 word"
type_synonym u16 = "16 word"
type_synonym u32 = "32 word"

type_synonym buffer_type = "u8 list"

definition BufferSize :: nat where
  "BufferSize = 25"

definition DefaultAddress :: u8 where
  "DefaultAddress = 0xf8"

definition ReadInputCode :: u8 where
  "ReadInputCode = 0x04"

definition WriteCode :: u8 where
  "WriteCode = 0x06"

definition ResetEnergyCode :: u8 where
  "ResetEnergyCode = 0x42"

definition ErrorMask :: u8 where
  "ErrorMask = 0x80"

text \<open>The \<open>n\<close> bytes found from \<^verbatim>\<open>buffer.data()\<close> on, read one index at a time.\<close>

definition bytes_of :: "buffer_type \<Rightarrow> nat \<Rightarrow> u8 list" where
  "bytes_of buf n = map (\<lambda>i. buf ! i) [0..<n]"

text \<open>\<^verbatim>\<open>buffer[i] = v\<close>; \<open>None\<close> when \<open>i\<close> is outside the array.\<close>

definition store :: "buffer_type \<Rightarrow> nat \<Rightarrow> u8 \<Rightarrow> buffer_type option" where
  "store buf i v = (if i < length buf then Some (buf[i := v]) else None)"

subsection \<open>CRC16\<close>

text \<open>One round of the inner loop of the lambda \<^verbatim>\<open>crc16_update\<close>.\<close>

definition crc16_step :: "u16 \<Rightarrow> u16" where
  "crc16_step crc = (if crc AND 1 \<noteq> 0 then drop_bit 1 crc XOR 0xa001 else drop_bit 1 crc)"

definition crc16_update :: "u16 \<Rightarrow> u8 \<Rightarrow> u16" where
  "crc16_update crc v = (crc16_step ^^ 8) (crc XOR ucast v)"

definition crc16modbus :: "buffer_type \<Rightarrow> nat \<Rightarrow> u16" where
  "crc16modbus data sz = foldl crc16_update 0xffff (bytes_of data sz)"

text \<open>
  The reference the specification compares with, written from its words on natural
  numbers, after the CRC generation procedure of the Modbus serial line guide: load the
  register with \<open>0xFFFF\<close>; for every byte, exclusive-or the byte into the register, then
  eight times shift the register one bit to the right and, when the bit shifted out was
  1, exclusive-or the register with the polynomial value \<open>0xA001\<close>.
\<close>

definition reference_shift :: "nat \<Rightarrow> nat" where
  "reference_shift r = (if odd r then (r div 2) XOR 0xA001 else r div 2)"

definition reference_byte :: "nat \<Rightarrow> nat \<Rightarrow> nat" where
  "reference_byte r b = (reference_shift ^^ 8) (r XOR b)"

definition reference_modbus_crc16 :: "nat list \<Rightarrow> nat" where
  "reference_modbus_crc16 bs = foldl reference_byte 0xFFFF bs"

subsection \<open>The request builder\<close>

record adu_builder =
  buffer :: buffer_type
  size' :: nat
  locked :: bool

text \<open>
  The constructor \<^verbatim>\<open>adu_builder(device_address, fcode)\<close>: the array is initialised from
  two values, the remaining elements are zero.
\<close>

definition new_adu_builder :: "u8 \<Rightarrow> u8 \<Rightarrow> adu_builder" where
  "new_adu_builder device_address fcode =
     \<lparr>buffer = [device_address, fcode] @ replicate (BufferSize - 2) 0, size' = 2, locked = False\<rparr>"

text \<open>\<^verbatim>\<open>add(uint8_t)\<close>, \<^verbatim>\<open>add(uint16_t)\<close> and \<^verbatim>\<open>end()\<close>; \<^verbatim>\<open>buffer.size()\<close> is \<open>BufferSize\<close>.\<close>

definition add_u8 :: "u8 \<Rightarrow> adu_builder \<Rightarrow> adu_builder option" where
  "add_u8 v b =
     (if \<not> locked b \<and> size' b < BufferSize then
        do {
          buf \<leftarrow> store (buffer b) (size' b) v;
          Some (b\<lparr>buffer := buf, size' := size' b + 1\<rparr>)
        }
      else Some b)"

definition add_u16 :: "u16 \<Rightarrow> adu_builder \<Rightarrow> adu_builder option" where
  "add_u16 v b =
     (if \<not> locked b \<and> size' b + 1 < BufferSize then
        do {
          buf \<leftarrow> store (buffer b) (size' b) (ucast (drop_bit 8 v AND 0xff));
          buf \<leftarrow> store buf (size' b + 1) (ucast (v AND 0xff));
          Some (b\<lparr>buffer := buf, size' := size' b + 2\<rparr>)
        }
      else Some b)"

definition end_adu :: "adu_builder \<Rightarrow> adu_builder option" where
  "end_adu b =
     (if \<not> locked b then
        do {
          let v = crc16modbus (buffer b) (size' b);
          buf \<leftarrow> store (buffer b) (size' b) (ucast (v AND 0xff));
          buf \<leftarrow> store buf (size' b + 1) (ucast (drop_bit 8 v AND 0xff));
          Some (b\<lparr>buffer := buf, size' := size' b + 2, locked := True\<rparr>)
        }
      else Some b)"

text \<open>A sequence of builder calls, as a caller chains them.\<close>

datatype adu_op = Add8 u8 | Add16 u16 | End

fun adu_apply :: "adu_op \<Rightarrow> adu_builder \<Rightarrow> adu_builder option" where
  "adu_apply (Add8 v) b = add_u8 v b"
| "adu_apply (Add16 v) b = add_u16 v b"
| "adu_apply End b = end_adu b"

fun adu_run :: "adu_op list \<Rightarrow> adu_builder \<Rightarrow> adu_builder option" where
  "adu_run [] b = Some b"
| "adu_run (x # xs) b = (case adu_apply x b of None \<Rightarrow> None | Some b' \<Rightarrow> adu_run xs b')"

subsection \<open>Expected reply length\<close>

text \<open>
  \<^verbatim>\<open>(builder.buffer[4] << 8) | builder.buffer[5]\<close> is computed on \<^verbatim>\<open>int\<close> after integer
  promotion and converted to \<^verbatim>\<open>size_t\<close> on return.
\<close>

definition modbusExpect :: "adu_builder \<Rightarrow> nat" where
  "modbusExpect builder =
     (if \<not> locked builder then 0
      else if buffer builder ! 1 = ReadInputCode then
        (if size' builder \<ge> 6 then
           nat (3 + 2 * (push_bit 8 (uint (buffer builder ! 4)) OR uint (buffer builder ! 5)) + 2)
         else 0)
      else if buffer builder ! 1 = WriteCode then size' builder
      else if buffer builder ! 1 = ResetEnergyCode then size' builder
      else 0)"

subsection \<open>Exception codes\<close>

definition errorToString :: "u8 \<Rightarrow> string" where
  "errorToString err =
     (if err = 0x01 then ''Illegal function''
      else if err = 0x02 then ''Illegal data address''
      else if err = 0x03 then ''Illegal data value''
      else if err = 0x04 then ''Device failure''
      else if err = 0x05 then ''Acknowledged''
      else if err = 0x06 then ''Busy''
      else if err = 0x08 then ''Memory parity error''
      else ''Unknown'')"

subsection \<open>Readings\<close>

record Reading =
  voltage :: real
  current :: real
  power_active :: real
  energy_active :: real
  frequency :: real
  power_factor :: real
  alarm :: bool
  ok :: bool

text \<open>
  The lambdas \<^verbatim>\<open>take_2\<close> and \<^verbatim>\<open>take_4\<close> of \<^verbatim>\<open>parseReading\<close>. They advance the
  iterator \<^verbatim>\<open>it\<close>, here the index that is passed in and returned; \<^verbatim>\<open>end\<close> is the index
  \<open>BufferSize\<close>.
\<close>

definition take_2 :: "buffer_type \<Rightarrow> nat \<Rightarrow> real \<times> nat" where
  "take_2 buf it =
     (if int BufferSize - int it \<ge> 2 then
        (real (unat (push_bit 8 (ucast (buf ! it) :: u32) OR ucast (buf ! (it + 1)))), it + 2)
      else (0, it))"

definition take_4 :: "buffer_type \<Rightarrow> nat \<Rightarrow> real \<times> nat" where
  "take_4 buf it =
     (if int BufferSize - int it \<ge> 4 then
        (real (unat
           ((push_bit 24 (ucast (buf ! (it + 2)) :: u32) OR push_bit 16 (ucast (buf ! (it + 3))))
            OR (push_bit 8 (ucast (buf ! it)) OR ucast (buf ! (it + 1))))), it + 4)
      else (0, it))"

text \<open>
  \<^verbatim>\<open>Reading out;\<close> leaves every field but \<^verbatim>\<open>ok\<close> uninitialised: \<open>uninit\<close> stands for
  those contents.
\<close>

definition parseReading :: "Reading \<Rightarrow> buffer_type \<Rightarrow> nat \<Rightarrow> Reading" where
  "parseReading uninit buf sz =
     (let out = uninit\<lparr>ok := False\<rparr> in
      if 25 \<noteq> sz then out
      else
        let it = 3;
            out = out\<lparr>ok := True\<rparr>;
            (v, it) = take_2 buf it;
            out = out\<lparr>voltage := v / 10\<rparr>;
            (v, it) = take_4 buf it;
            out = out\<lparr>current := v / 1000\<rparr>;
            (v, it) = take_4 buf it;
            out = out\<lparr>power_active := v / 10\<rparr>;
            (v, it) = take_4 buf it;
            out = out\<lparr>energy_active := v / 1000\<rparr>;
            (v, it) = take_2 buf it;
            out = out\<lparr>frequency := v / 10\<rparr>;
            (v, it) = take_2 buf it;
            out = out\<lparr>power_factor := v\<rparr>
        in out\<lparr>alarm := (0xff = buf ! it \<and> 0xff = buf ! (it + 1))\<rparr>)"

subsection \<open>Energy delta\<close>

definition EnergyMax :: real where
  "EnergyMax = 10000"

text \<open>
  \<^verbatim>\<open>espurna::sensor::Energy\<close> and its \<^verbatim>\<open>asWattSeconds()\<close> are declared outside this file:
  the conversion from kWh is the parameter \<open>asWattSeconds\<close>.
\<close>

definition energyDelta :: "(real \<Rightarrow> 'ws) \<Rightarrow> real \<Rightarrow> real \<Rightarrow> 'ws" where
  "energyDelta asWattSeconds last' cur =
     asWattSeconds (if last' > cur then cur + (EnergyMax - last') else cur - last')"

subsection \<open>The driver's state\<close>

text \<open>
  Modelled from the spec: the error constants \<^verbatim>\<open>SENSOR_ERROR_OK\<close>, \<^verbatim>\<open>SENSOR_ERROR_CRC\<close> and
  \<^verbatim>\<open>SENSOR_ERROR_OTHER\<close> are declared outside this file; the specification has a CRC
  mismatch reported distinctly from a timeout, so they are three distinct values.
\<close>

datatype sensor_error = SENSOR_ERROR_OK | SENSOR_ERROR_CRC | SENSOR_ERROR_OTHER

text \<open>
  The messages of \<^verbatim>\<open>PZEM_DEBUG_MSG_P\<close>, by their arguments: the received bytes
  (\<^verbatim>\<open>modbusDebugBuffer\<close>), \<^verbatim>\<open>Expected %u bytes, got %u\<close>, \<^verbatim>\<open>CRC invalid\<close> with the computed
  and the received checksum, \<^verbatim>\<open>ERROR: %s (0x%02X)\<close> for an exception reply, and
  \<^verbatim>\<open>Could not parse latest reading\<close>. The macro prints when \<^verbatim>\<open>_debug\<close> is set (and
  \<^verbatim>\<open>DEBUG_SUPPORT\<close> is compiled in; without it no message is ever printed).
\<close>

datatype debug_msg =
    DebugReceived "u8 list"
  | DebugExpected nat nat
  | DebugCrcInvalid u16 u16
  | DebugException string u8
  | DebugCouldNotParse

text \<open>
  The members of the sensor the protocol engine uses, with the two sides of the serial
  port it owns: \<open>port_rx\<close> lists what the coming calls of \<^verbatim>\<open>read()\<close> return (a negative
  value when no byte is available), \<open>port_tx\<close> what has been written.
\<close>

record sensor =
  port_rx :: "int list"
  port_tx :: "u8 list"
  address :: u8
  debug :: bool
  reset_energy :: bool
  error :: sensor_error
  energy_delta :: real
  last_reading :: Reading
  debug_log :: "debug_msg list"

text \<open>
  What a function receives from outside the class: how many times the clock test
  \<^verbatim>\<open>TimeSource::now() - ts < _read_timeout\<close> of the read loop holds before the timeout has
  passed (the clock is monotonic, so it holds for the first \<open>read_polls\<close> tests and never
  again), the contents of its uninitialised locals, and the conversions of
  \<^verbatim>\<open>espurna::sensor::Energy\<close> and \<^verbatim>\<open>WattSeconds\<close> declared elsewhere.
\<close>

record 'ws environment =
  read_polls :: nat
  uninit_buffer :: "nat \<Rightarrow> u8"
  uninit_reading :: Reading
  asWattSeconds :: "real \<Rightarrow> 'ws"
  ws_value :: "'ws \<Rightarrow> real"

text \<open>
  The constructor sets \<^verbatim>\<open>_port\<close> and \<^verbatim>\<open>_address\<close>; \<^verbatim>\<open>_debug\<close>, \<^verbatim>\<open>_reset_energy\<close> and
  \<^verbatim>\<open>Reading::ok\<close> have default member initialisers. \<^verbatim>\<open>double _energy_delta;\<close> and the
  other fields of \<^verbatim>\<open>_last_reading\<close> have none: they keep the contents of \<open>uninit\<close>, as
  does \<^verbatim>\<open>_error\<close>, a member of the base class.
\<close>

definition PZEM004TV30Sensor :: "int list \<Rightarrow> u8 \<Rightarrow> sensor \<Rightarrow> sensor" where
  "PZEM004TV30Sensor rx addr uninit =
     uninit\<lparr>port_rx := rx, port_tx := [], address := addr, debug := False,
       reset_energy := False, last_reading := (last_reading uninit)\<lparr>ok := False\<rparr>,
       debug_log := []\<rparr>"

definition debug_msg_p :: "debug_msg \<Rightarrow> sensor \<Rightarrow> sensor" where
  "debug_msg_p m s = (if debug s then s\<lparr>debug_log := debug_log s @ [m]\<rparr> else s)"

text \<open>\<^verbatim>\<open>(*_port)->read()\<close> on the script of incoming values.\<close>

definition stream_read :: "int list \<Rightarrow> int \<times> int list" where
  "stream_read rx = (case rx of [] \<Rightarrow> (- 1, []) | c # cs \<Rightarrow> (c, cs))"

text \<open>\<^verbatim>\<open>flush()\<close>: read until \<^verbatim>\<open>read()\<close> returns a negative value.\<close>

fun flush_rx :: "int list \<Rightarrow> int list" where
  "flush_rx [] = []"
| "flush_rx (c # cs) = (if c \<ge> 0 then flush_rx cs else cs)"

definition flush :: "sensor \<Rightarrow> sensor" where
  "flush s = s\<lparr>port_rx := flush_rx (port_rx s)\<rparr>"

text \<open>\<^verbatim>\<open>value(index)\<close>.\<close>

definition sensor_value :: "sensor \<Rightarrow> nat \<Rightarrow> real" where
  "sensor_value s index =
     (if index = 0 then voltage (last_reading s)
      else if index = 1 then frequency (last_reading s)
      else if index = 2 then current (last_reading s)
      else if index = 3 then power_active (last_reading s)
      else if index = 4 then power_factor (last_reading s)
      else if index = 5 then energy_delta s
      else if index = 6 then energy_active (last_reading s)
      else 0)"

subsection \<open>The exchange engine\<close>

text \<open>
  The read loop of \<^verbatim>\<open>modbusProcess\<close>. Its first argument counts the clock tests that
  still hold; the loop state is the script of the port, \<^verbatim>\<open>bytes\<close>, \<^verbatim>\<open>expect\<close> and the
  local \<^verbatim>\<open>buffer\<close>.
\<close>

fun modbusReadLoop ::
  "nat \<Rightarrow> u8 \<Rightarrow> u8 \<Rightarrow> u8 \<Rightarrow> int list \<Rightarrow> nat \<Rightarrow> nat \<Rightarrow> buffer_type
     \<Rightarrow> (int list \<times> nat \<times> nat \<times> buffer_type) option" where
  "modbusReadLoop 0 addr code error_code rx bytes expect buf = Some (rx, bytes, expect, buf)"
| "modbusReadLoop (Suc polls) addr code error_code rx bytes expect buf =
     (if \<not> bytes < expect then Some (rx, bytes, expect, buf)
      else
        let (c, rx) = stream_read rx in
        if c < 0 then modbusReadLoop polls addr code error_code rx bytes expect buf
        else if 0 = bytes \<and> uint addr \<noteq> c then
          modbusReadLoop polls addr code error_code rx bytes expect buf
        else if 1 = bytes then
          (if uint error_code = c then
             (case store buf bytes (word_of_int c) of
                None \<Rightarrow> None
              | Some buf \<Rightarrow> modbusReadLoop polls addr code error_code rx (bytes + 1) 5 buf)
           else if uint code \<noteq> c then
             modbusReadLoop polls addr code error_code rx 0 expect buf
           else
             (case store buf bytes (word_of_int c) of
                None \<Rightarrow> None
              | Some buf \<Rightarrow> modbusReadLoop polls addr code error_code rx (bytes + 1) expect buf))
        else
          (case store buf bytes (word_of_int c) of
             None \<Rightarrow> None
           | Some buf \<Rightarrow> modbusReadLoop polls addr code error_code rx (bytes + 1) expect buf))"

text \<open>
  \<^verbatim>\<open>modbusProcess(builder, callback)\<close>. The callbacks capture by reference: a callback
  acts on the sensor and on the locals \<open>l\<close> of its caller. \<^verbatim>\<open>bytes - 2\<close> is computed on
  \<^verbatim>\<open>size_t\<close>: with fewer than two bytes it wraps around and the source reads outside the
  array.
\<close>

definition modbusProcess ::
  "('ws, 'e) environment_scheme \<Rightarrow> adu_builder
     \<Rightarrow> (buffer_type \<Rightarrow> nat \<Rightarrow> sensor \<times> 'l \<Rightarrow> sensor \<times> 'l)
     \<Rightarrow> sensor \<times> 'l \<Rightarrow> (sensor \<times> 'l) option" where
  "modbusProcess env builder callback sl =
     (let (s, l) = sl in
      if \<not> locked builder then Some (s, l)
      else
        let s = s\<lparr>port_tx := port_tx s @ bytes_of (buffer builder) (size' builder)\<rparr>;
            expect = modbusExpect builder
        in
        if expect = 0 then Some (s, l)
        else
          let code = buffer builder ! 1;
              error_code = ErrorMask OR code;
              buf0 = map (uninit_buffer env) [0..<BufferSize]
          in
          case modbusReadLoop (read_polls env) (address s) code error_code (port_rx s) 0 expect buf0 of
            None \<Rightarrow> None
          | Some (rx, bytes, expect, buf) \<Rightarrow>
              let s = s\<lparr>port_rx := rx\<rparr>;
                  s = (if bytes \<noteq> 0 \<and> debug s then
                         debug_msg_p (DebugReceived (bytes_of buf bytes)) s
                       else s)
              in
              if bytes \<noteq> expect then
                Some ((debug_msg_p (DebugExpected expect bytes) s)\<lparr>error := SENSOR_ERROR_OTHER\<rparr>, l)
              else if bytes < 2 then None
              else
                let received_crc =
                      (push_bit 8 (ucast (buf ! (bytes - 1))) OR ucast (buf ! (bytes - 2)) :: u16);
                    crc = crc16modbus buf (bytes - 2)
                in
                if received_crc \<noteq> crc then
                  Some ((debug_msg_p (DebugCrcInvalid crc received_crc) s)\<lparr>error := SENSOR_ERROR_CRC\<rparr>, l)
                else if buf ! 1 AND ErrorMask \<noteq> 0 then
                  Some (debug_msg_p (DebugException (errorToString (buf ! 2)) (buf ! 2)) s, l)
                else Some (callback buf bytes (s, l)))"

text \<open>\<^verbatim>\<open>std::equal\<close> over the first \<open>n\<close> bytes of the request and of the reply.\<close>

definition echo_equal :: "adu_builder \<Rightarrow> buffer_type \<Rightarrow> nat \<Rightarrow> bool" where
  "echo_equal request buf n = (bytes_of (buffer request) n = bytes_of buf n)"

definition modbusResetEnergy :: "('ws, 'e) environment_scheme \<Rightarrow> sensor \<Rightarrow> (bool \<times> sensor) option" where
  "modbusResetEnergy env s =
     do {
       request \<leftarrow> end_adu (new_adu_builder (address s) ResetEnergyCode);
       (s, result) \<leftarrow> modbusProcess env request
         (\<lambda>buf n (s, result). (s, echo_equal request buf n)) (s, False);
       Some (result, s)
     }"

definition modbusChangeAddress ::
  "('ws, 'e) environment_scheme \<Rightarrow> u8 \<Rightarrow> sensor \<Rightarrow> (bool \<times> sensor) option" where
  "modbusChangeAddress env to s =
     (if address s = to then Some (True, s)
      else
        do {
          b \<leftarrow> add_u16 2 (new_adu_builder (address s) WriteCode);
          b \<leftarrow> add_u16 (ucast to) b;
          request \<leftarrow> end_adu b;
          (s, result) \<leftarrow> modbusProcess env request
            (\<lambda>buf n (s, result). (s, echo_equal request buf n)) (s, False);
          Some (result, s)
        })"

text \<open>
  \<^verbatim>\<open>modbusReadValues()\<close>; the callback assigns \<^verbatim>\<open>_energy_delta\<close> and \<^verbatim>\<open>_last_reading\<close>.
\<close>

definition readValuesCallback ::
  "('ws, 'e) environment_scheme \<Rightarrow> buffer_type \<Rightarrow> nat \<Rightarrow> sensor \<times> unit \<Rightarrow> sensor \<times> unit" where
  "readValuesCallback env buf n sl =
     (let (s, u) = sl;
          reading = parseReading (uninit_reading env) buf n
      in
      if \<not> ok reading then (debug_msg_p DebugCouldNotParse s, u)
      else
        let s = (if ok (last_reading s) \<and> ok reading then
                   s\<lparr>energy_delta := ws_value env
                        (energyDelta (asWattSeconds env)
                           (energy_active (last_reading s)) (energy_active reading))\<rparr>
                 else s)
        in (s\<lparr>last_reading := reading\<rparr>, u))"

definition modbusReadValues :: "('ws, 'e) environment_scheme \<Rightarrow> sensor \<Rightarrow> sensor option" where
  "modbusReadValues env s =
     (let s = s\<lparr>error := SENSOR_ERROR_OK\<rparr> in
      do {
        b \<leftarrow> add_u16 0 (new_adu_builder (address s) ReadInputCode);
        b \<leftarrow> add_u16 10 b;
        request \<leftarrow> end_adu b;
        (s, u) \<leftarrow> modbusProcess env request (readValuesCallback env) (s, ());
        Some s
      })"

text \<open>
  The terminal command \<^verbatim>\<open>PZ.ADDRESS\<close> of \<^verbatim>\<open>registerTerminalCommands\<close>, from the converted
  argument \<open>updated\<close> on. The result says whether the command answered \<^verbatim>\<open>terminalOK\<close>,
  in which case it has also saved the setting \<^verbatim>\<open>pzemv30Addr\<close>.
\<close>

definition addressCommand ::
  "('ws, 'e) environment_scheme \<Rightarrow> u8 \<Rightarrow> sensor \<Rightarrow> (bool \<times> sensor) option" where
  "addressCommand env updated s =
     do {
       (result, s) \<leftarrow> modbusChangeAddress env updated (flush s);
       if result then Some (True, s\<lparr>address := updated\<rparr>) else Some (False, s)
     }"

subsection \<open>Notions used in the statements\<close>

text \<open>
  The invariant of the read loop for a request that expects \<open>e\<close> bytes: the count stays
  within the expected length, which is \<open>e\<close> or 5; after the second byte the buffer holds
  at index 1 either the exception code, with 5 bytes expected, or the function code.
\<close>

definition loop_inv :: "nat \<Rightarrow> u8 \<Rightarrow> u8 \<Rightarrow> nat \<Rightarrow> nat \<Rightarrow> nat \<Rightarrow> buffer_type \<Rightarrow> bool" where
  "loop_inv e code ec len bytes expect buf =
     (bytes \<le> expect \<and> length buf = len \<and> (expect = e \<or> expect = 5)
      \<and> (bytes < 2 \<longrightarrow> expect = e)
      \<and> (2 \<le> bytes \<longrightarrow> (buf ! 1 = ec \<and> expect = 5) \<or> (buf ! 1 = code \<and> expect = e)))"

text \<open>
  A frame: a body followed by its checksum, low byte first, as \<^verbatim>\<open>end()\<close> appends it.
\<close>

definition frame_of :: "u8 list \<Rightarrow> u8 list" where
  "frame_of body =
     body @ [ucast (crc16modbus body (length body) AND 0xff),
             ucast (drop_bit 8 (crc16modbus body (length body)) AND 0xff)]"

text \<open>
  The sensor after \<^verbatim>\<open>modbusProcess\<close> has written the request, left the read loop with \<open>rx\<close>
  still to come, and traced the \<open>bytes\<close> received bytes.
\<close>

definition exchanged :: "sensor \<Rightarrow> adu_builder \<Rightarrow> int list \<Rightarrow> nat \<Rightarrow> buffer_type \<Rightarrow> sensor" where
  "exchanged s request rx bytes buf =
     (let s = s\<lparr>port_tx := port_tx s @ bytes_of (buffer request) (size' request), port_rx := rx\<rparr>
      in if bytes \<noteq> 0 \<and> debug s then debug_msg_p (DebugReceived (bytes_of buf bytes)) s else s)"

text \<open>
  \<^verbatim>\<open>received_crc\<close> of \<^verbatim>\<open>modbusProcess\<close>: the last two received bytes, low byte first.
\<close>

definition received_crc :: "buffer_type \<Rightarrow> nat \<Rightarrow> u16" where
  "received_crc buf bytes = push_bit 8 (ucast (buf ! (bytes - 1))) OR ucast (buf ! (bytes - 2))"

text \<open>
  The requests that \<^verbatim>\<open>modbusReadValues\<close>, \<^verbatim>\<open>modbusResetEnergy\<close> and
  \<^verbatim>\<open>modbusChangeAddress\<close> build (\<open>read_request_steps\<close>, \<open>reset_request_built\<close>,
  \<open>change_request_steps\<close>).
\<close>

definition read_request :: "u8 \<Rightarrow> adu_builder" where
  "read_request a =
     \<lparr>buffer = frame_of [a, 0x04, 0, 0, 0, 0x0A] @ replicate 17 0, size' = 8, locked = True\<rparr>"

definition reset_request :: "u8 \<Rightarrow> adu_builder" where
  "reset_request a =
     \<lparr>buffer = frame_of [a, 0x42] @ replicate 21 0, size' = 4, locked = True\<rparr>"

definition change_request :: "u8 \<Rightarrow> u8 \<Rightarrow> adu_builder" where
  "change_request a to =
     \<lparr>buffer = frame_of [a, 0x06, 0, 2, 0, to] @ replicate 17 0, size' = 8, locked = True\<rparr>"

subsection \<open>Example inputs\<close>

text \<open>
  A reply to the read request of the device at the stock address: raw voltage 2300, raw
  current 1500, raw power 3450, raw energy 12345, raw frequency 500, power factor 100, no
  alarm, and its checksum.
\<close>

definition example_reply :: buffer_type where
  "example_reply =
     [0xF8, 0x04, 0x14, 0x08, 0xFC, 0x05, 0xDC, 0x00, 0x00, 0x0D, 0x7A, 0x00, 0x00,
      0x30, 0x39, 0x00, 0x00, 0x01, 0xF4, 0x00, 0x64, 0x00, 0x00, 0x59, 0x43]"

definition example_reading :: Reading where
  "example_reading =
     \<lparr>voltage = 1, current = 2, power_active = 3, energy_active = 4, frequency = 5,
      power_factor = 6, alarm = True, ok = True\<rparr>"

text \<open>The read request of the driver, and two requests without a payload.\<close>

definition example_read_request :: adu_builder where
  "example_read_request =
     \<lparr>buffer = [0xF8, 0x04, 0, 0, 0, 0x0A, 0x64, 0x64] @ replicate 17 0, size' = 8, locked = True\<rparr>"

definition example_short_request :: adu_builder where
  "example_short_request =
     \<lparr>buffer = [0xF8, 0x04, 0x43, 0xB3] @ replicate 21 0, size' = 4, locked = True\<rparr>"

definition example_unsupported_request :: adu_builder where
  "example_unsupported_request =
     \<lparr>buffer = [0xF8, 0x03, 0x02, 0x71] @ replicate 21 0, size' = 4, locked = True\<rparr>"

definition example_environment :: "real environment" where
  "example_environment =
     \<lparr>read_polls = 40, uninit_buffer = (\<lambda>i. 0xAA), uninit_reading = example_reading,
      asWattSeconds = (\<lambda>kwh. kwh * 3600000), ws_value = (\<lambda>ws. ws)\<rparr>"

definition example_sensor :: sensor where
  "example_sensor =
     \<lparr>port_rx = [], port_tx = [], address = 0xF8, debug = True, reset_energy = False,
      error = SENSOR_ERROR_OK, energy_delta = 7, last_reading = example_reading,
      debug_log = []\<rparr>"

text \<open>
  The example reply with a wrong checksum, and an exception reply (code 2) with its
  checksum.
\<close>

definition example_bad_reply :: "u8 list" where
  "example_bad_reply =
     [0xF8, 0x04, 0x14, 0x08, 0xFC, 0x05, 0xDC, 0x00, 0x00, 0x0D, 0x7A, 0x00, 0x00,
      0x30, 0x39, 0x00, 0x00, 0x01, 0xF4, 0x00, 0x64, 0x00, 0x00, 0x59, 0x00]"

definition example_exception_reply :: "u8 list" where
  "example_exception_reply = [0xF8, 0x84, 0x02, 0x12, 0xF0]"

text \<open>The echo of the request that changes the address \<open>0xF8\<close> to 1.\<close>

definition example_change_echo :: "u8 list" where
  "example_change_echo = [0xF8, 0x06, 0x00, 0x02, 0x00, 0x01, 0xFD, 0xA3]"

section \<open>Properties\<close>

subsection \<open>Evaluation and word arithmetic\<close>

lemma funpow8: "(f ^^ 8) x = f (f (f (f (f (f (f (f x)))))))"
  by (simp add: eval_nat_numeral)

lemma crc16_step_unat: "unat (crc16_step c) = reference_shift (unat c)"
proof -
  have "(c AND 1 = 0) = (unat (c AND 1) = 0)"
    by (simp add: unsigned_eq_0_iff)
  also have "\<dots> = (unat c AND 1 = 0)"
    by (simp add: unsigned_and_eq)
  also have "\<dots> = even (unat c)"
    by (simp add: and_one_eq mod_2_eq_odd)
  finally have odd_iff: "(c AND 1 \<noteq> 0) = odd (unat c)"
    by simp
  show ?thesis
    unfolding crc16_step_def reference_shift_def odd_iff
    by (simp add: unsigned_xor_eq unat_drop_bit_eq drop_bit_eq_div unat_div)
qed

lemma crc16_update_unat: "unat (crc16_update c v) = reference_byte (unat c) (unat v)"
  by (simp add: crc16_update_def reference_byte_def funpow8 crc16_step_unat unsigned_xor_eq unsigned_ucast_eq take_bit_nat_eq_self unsigned_less [THEN less_trans])

lemma crc16_fold_unat:
  "unat (foldl crc16_update c bs) = foldl reference_byte (unat c) (map unat bs)"
  by (induction bs arbitrary: c) (simp_all add: crc16_update_unat)

lemma bytes_of_take: "n \<le> length buf \<Longrightarrow> bytes_of buf n = take n buf"
  by (simp add: bytes_of_def list_eq_iff_nth_eq)


lemma crc_golden: "crc16modbus [0xF8, 0x04, 0x00, 0x00, 0x00, 0x0A] 6 = 0x6464"
  by (simp add: crc16modbus_def bytes_of_def upt_rec[of _ "numeral _"] crc16_update_def funpow8 crc16_step_def)

lemma or_push_bit_int:
  fixes x y :: int
  assumes "0 \<le> y" "y < 2 ^ n"
  shows "push_bit n x OR y = x * 2 ^ n + y"
proof -
  have "take_bit n y = y"
    using assms by (simp add: take_bit_int_eq_self)
  then have "push_bit n x OR y = concat_bit n y x"
    by (simp add: concat_bit_def or.commute)
  also have "\<dots> = take_bit n y + push_bit n x"
    by (rule concat_bit_eq)
  finally show ?thesis
    using \<open>take_bit n y = y\<close> by (simp add: push_bit_eq_mult mult.commute)
qed

lemma uint_u8_bounds: "0 \<le> uint (a :: u8) \<and> uint a < 256"
  using uint_lt2p [of a] by simp

lemma uint_ucast_u8_u32: "uint (ucast (a :: u8) :: u32) = uint a"
  by (simp add: uint_up_ucast is_up)

lemma uint_push_ucast:
  "uint (push_bit n (ucast (a :: u8) :: u32)) = take_bit 32 (push_bit n (uint a))"
  by (subst unsigned_push_bit_eq) (simp add: uint_ucast_u8_u32)

lemma uint_push_8: "uint (push_bit 8 (ucast (a :: u8) :: u32)) = 256 * uint a"
  using uint_u8_bounds [of a]
  by (simp only: uint_push_ucast) (simp add: push_bit_eq_mult take_bit_int_eq_self)

lemma uint_push_16: "uint (push_bit 16 (ucast (a :: u8) :: u32)) = 65536 * uint a"
  using uint_u8_bounds [of a]
  by (simp only: uint_push_ucast) (simp add: push_bit_eq_mult take_bit_int_eq_self)

lemma uint_push_24: "uint (push_bit 24 (ucast (a :: u8) :: u32)) = 16777216 * uint a"
  using uint_u8_bounds [of a]
  by (simp only: uint_push_ucast) (simp add: push_bit_eq_mult take_bit_int_eq_self)

lemma uint_half:
  "uint (push_bit 8 (ucast (a :: u8) :: u32) OR ucast (b :: u8)) = 256 * uint a + uint b"
proof -
  have "uint (push_bit 8 (ucast a :: u32) OR ucast b) = push_bit 8 (uint a) OR uint b"
    by (simp only: uint_or uint_push_8 uint_ucast_u8_u32) (simp add: push_bit_eq_mult mult.commute)
  also have "\<dots> = uint a * 2 ^ 8 + uint b"
    using uint_u8_bounds [of b] by (intro or_push_bit_int) simp_all
  finally show ?thesis by simp
qed

lemma unat_half:
  "unat (push_bit 8 (ucast (a :: u8) :: u32) OR ucast (b :: u8)) = 256 * unat a + unat b"
proof -
  have "int (unat (push_bit 8 (ucast a :: u32) OR ucast b)) = int (256 * unat a + unat b)"
    using uint_half [of a b] by simp
  then show ?thesis by (simp only: of_nat_eq_iff)
qed

lemma uint_high_half:
  "uint (push_bit 24 (ucast (c :: u8) :: u32) OR push_bit 16 (ucast (d :: u8)))
     = 65536 * (256 * uint c + uint d)"
proof -
  have "uint (push_bit 24 (ucast c :: u32) OR push_bit 16 (ucast d))
      = push_bit 16 (push_bit 8 (uint c)) OR push_bit 16 (uint d)"
    by (simp only: uint_or uint_push_24 uint_push_16) (simp add: push_bit_eq_mult mult.commute)
  also have "\<dots> = push_bit 16 (push_bit 8 (uint c) OR uint d)"
    by (simp only: push_bit_or)
  also have "push_bit 8 (uint c) OR uint d = uint c * 2 ^ 8 + uint d"
    using uint_u8_bounds [of d] by (intro or_push_bit_int) simp_all
  finally show ?thesis
    by (simp add: push_bit_eq_mult mult.commute)
qed

lemma unat_word32:
  "unat ((push_bit 24 (ucast (c :: u8) :: u32) OR push_bit 16 (ucast (d :: u8)))
         OR (push_bit 8 (ucast (a :: u8)) OR ucast (b :: u8)))
     = 65536 * (256 * unat c + unat d) + (256 * unat a + unat b)"
proof -
  let ?hi = "push_bit 24 (ucast c :: u32) OR push_bit 16 (ucast d)"
  let ?lo = "push_bit 8 (ucast a :: u32) OR ucast b"
  have lo: "0 \<le> uint ?lo \<and> uint ?lo < 2 ^ 16"
    using uint_u8_bounds [of a] uint_u8_bounds [of b] by (simp add: uint_half)
  have "uint (?hi OR ?lo) = push_bit 16 (256 * uint c + uint d) OR uint ?lo"
    by (simp only: uint_or [of ?hi ?lo] uint_high_half) (simp add: push_bit_eq_mult mult.commute)
  also have "\<dots> = (256 * uint c + uint d) * 2 ^ 16 + uint ?lo"
    using lo by (intro or_push_bit_int) simp_all
  finally have "int (unat (?hi OR ?lo)) = int (65536 * (256 * unat c + unat d) + (256 * unat a + unat b))"
    by (simp add: uint_half)
  then show ?thesis by (simp only: of_nat_eq_iff)
qed

lemma modbusExpect_count:
  "nat (3 + 2 * (push_bit 8 (uint (a :: u8)) OR uint (b :: u8)) + 2) = 3 + 2 * (256 * unat a + unat b) + 2"
proof -
  have "push_bit 8 (uint a) OR uint b = uint a * 2 ^ 8 + uint b"
    using uint_u8_bounds [of b] by (intro or_push_bit_int) simp_all
  then have "3 + 2 * (push_bit 8 (uint a) OR uint b) + 2 = int (3 + 2 * (256 * unat a + unat b) + 2)"
    by simp
  then show ?thesis by (simp only: nat_int)
qed

lemma modbusExpect_eq:
  "locked b \<Longrightarrow>
     modbusExpect b =
       (if buffer b ! 1 = 0x04 then
          (if 6 \<le> size' b then 3 + 2 * (256 * unat (buffer b ! 4) + unat (buffer b ! 5)) + 2 else 0)
        else if buffer b ! 1 = 0x06 \<or> buffer b ! 1 = 0x42 then size' b
        else 0)"
  unfolding modbusExpect_def modbusExpect_count
  by (simp add: ReadInputCode_def WriteCode_def ResetEnergyCode_def)

lemma modbusProcess_nothing_expected:
  "locked b \<Longrightarrow> modbusExpect b = 0 \<Longrightarrow>
     modbusProcess env b callback (s, l)
       = Some (s\<lparr>port_tx := port_tx s @ bytes_of (buffer b) (size' b)\<rparr>, l)"
  by (simp add: modbusProcess_def)


lemma replicate_unfold: "replicate (numeral k) x = x # replicate (pred_numeral k) x"
  by (simp add: numeral_eq_Suc)

lemma new_adu_builder_list:
  "new_adu_builder a f =
     \<lparr>buffer = [a, f, 0, 0, 0, 0, 0, 0, 0, 0, 0, 0, 0, 0, 0, 0, 0, 0, 0, 0, 0, 0, 0, 0, 0],
      size' = 2, locked = False\<rparr>"
  by (simp add: new_adu_builder_def BufferSize_def replicate_unfold)

lemmas crc_eval = crc16modbus_def bytes_of_def upt_rec [of _ "numeral _"] crc16_update_def
  funpow8 crc16_step_def

lemma short_request_built:
  "end_adu (new_adu_builder 0xF8 ReadInputCode) = Some example_short_request"
  by (simp add: end_adu_def new_adu_builder_list example_short_request_def ReadInputCode_def
      store_def crc_eval replicate_unfold)

text \<open>The builder: what each call does to a well-formed buffer.\<close>

lemma add_u8_total:
  "length (buffer b) = BufferSize \<Longrightarrow>
     \<exists>b'. add_u8 v b = Some b' \<and> length (buffer b') = BufferSize
       \<and> (locked b \<or> BufferSize \<le> size' b \<longrightarrow> b' = b)"
  by (auto simp: add_u8_def store_def)

lemma add_u16_total:
  "length (buffer b) = BufferSize \<Longrightarrow>
     \<exists>b'. add_u16 v b = Some b' \<and> length (buffer b') = BufferSize
       \<and> (locked b \<or> BufferSize \<le> size' b + 1 \<longrightarrow> b' = b)"
  by (auto simp: add_u16_def store_def)

lemma end_adu_bounds:
  "length (buffer b) = BufferSize \<Longrightarrow>
     (end_adu b = None) = (\<not> locked b \<and> BufferSize < size' b + 2)"
  by (auto simp: end_adu_def store_def Let_def)

lemma adu_run_append:
  "adu_run (xs @ ys) b = (case adu_run xs b of None \<Rightarrow> None | Some b' \<Rightarrow> adu_run ys b')"
  by (induction xs arbitrary: b) (auto split: option.splits)

lemma add_u8_fill:
  "n \<le> 23 \<Longrightarrow> adu_run (replicate n (Add8 v)) (new_adu_builder a f)
     = Some \<lparr>buffer = [a, f] @ replicate n v @ replicate (23 - n) 0, size' = 2 + n, locked = False\<rparr>"
proof (induction n)
  case 0
  then show ?case by (simp add: new_adu_builder_def BufferSize_def)
next
  case (Suc n)
  let ?b = "\<lparr>buffer = [a, f] @ replicate n v @ replicate (23 - n) 0, size' = 2 + n, locked = False\<rparr>"
  have "replicate (Suc n) (Add8 v) = replicate n (Add8 v) @ [Add8 v]"
    by (simp add: replicate_append_same)
  then have "adu_run (replicate (Suc n) (Add8 v)) (new_adu_builder a f) = add_u8 v ?b"
    using Suc by (simp only: adu_run_append) (simp split: option.splits)
  moreover have "replicate (23 - n) (0 :: u8) = 0 # replicate (23 - Suc n) 0"
    using Suc.prems by (cases "23 - n") simp_all
  then have "add_u8 v ?b
    = Some \<lparr>buffer = [a, f] @ replicate (Suc n) v @ replicate (23 - Suc n) 0,
             size' = 2 + Suc n, locked = False\<rparr>"
    using Suc.prems
    by (simp add: add_u8_def store_def BufferSize_def list_update_append replicate_append_same)
  ultimately show ?case by simp
qed

text \<open>The read loop, step by step.\<close>

lemma stream_read_Cons: "stream_read (c # cs) = (c, cs)"
  by (simp add: stream_read_def)

lemma loop_done:
  "\<not> bytes < expect \<Longrightarrow>
     modbusReadLoop n addr code ec rx bytes expect buf = Some (rx, bytes, expect, buf)"
  by (cases n) simp_all

lemma loop_no_byte:
  "bytes < expect \<Longrightarrow> c < 0 \<Longrightarrow>
     modbusReadLoop (Suc n) addr code ec (c # rx) bytes expect buf
       = modbusReadLoop n addr code ec rx bytes expect buf"
  by (simp add: stream_read_Cons)

lemma loop_scan_address:
  "0 < expect \<Longrightarrow> c \<noteq> uint addr \<Longrightarrow>
     modbusReadLoop (Suc n) addr code ec (c # rx) 0 expect buf
       = modbusReadLoop n addr code ec rx 0 expect buf"
  by (simp add: stream_read_Cons)

lemma loop_wrong_function:
  "1 < expect \<Longrightarrow> 0 \<le> c \<Longrightarrow> c \<noteq> uint code \<Longrightarrow> c \<noteq> uint ec \<Longrightarrow>
     modbusReadLoop (Suc n) addr code ec (c # rx) (Suc 0) expect buf
       = modbusReadLoop n addr code ec rx 0 expect buf"
  by (simp add: stream_read_Cons)

lemma loop_address:
  "0 < expect \<Longrightarrow> 0 < length buf \<Longrightarrow>
     modbusReadLoop (Suc n) addr code ec (uint addr # rx) 0 expect buf
       = modbusReadLoop n addr code ec rx (Suc 0) expect (buf[0 := addr])"
  by (simp add: stream_read_Cons store_def)

lemma loop_function:
  "1 < expect \<Longrightarrow> 1 < length buf \<Longrightarrow> code \<noteq> ec \<Longrightarrow>
     modbusReadLoop (Suc n) addr code ec (uint code # rx) (Suc 0) expect buf
       = modbusReadLoop n addr code ec rx 2 expect (buf[Suc 0 := code])"
  by (simp add: stream_read_Cons store_def numeral_2_eq_2 word_uint_eq_iff)

lemma loop_exception:
  "1 < expect \<Longrightarrow> 1 < length buf \<Longrightarrow>
     modbusReadLoop (Suc n) addr code ec (uint ec # rx) (Suc 0) expect buf
       = modbusReadLoop n addr code ec rx 2 5 (buf[Suc 0 := ec])"
  by (simp add: stream_read_Cons store_def numeral_2_eq_2)

lemma loop_collect_one:
  "2 \<le> bytes \<Longrightarrow> bytes < expect \<Longrightarrow> bytes < length buf \<Longrightarrow>
     modbusReadLoop (Suc n) addr code ec (uint (w :: u8) # rx) bytes expect buf
       = modbusReadLoop n addr code ec rx (bytes + 1) expect (buf[bytes := w])"
  by (simp add: stream_read_Cons store_def)

lemma loop_collect:
  "2 \<le> bytes \<Longrightarrow> bytes + length ws \<le> expect \<Longrightarrow> bytes + length ws \<le> length buf \<Longrightarrow>
     modbusReadLoop (length ws + n) addr code ec (map uint ws @ rx) bytes expect buf
       = modbusReadLoop n addr code ec rx (bytes + length ws) expect
           (take bytes buf @ ws @ drop (bytes + length ws) buf)"
proof (induction ws arbitrary: bytes buf)
  case Nil
  then show ?case by simp
next
  case (Cons w ws)
  have "modbusReadLoop (length (w # ws) + n) addr code ec (map uint (w # ws) @ rx) bytes expect buf
      = modbusReadLoop (length ws + n) addr code ec (map uint ws @ rx) (bytes + 1) expect (buf[bytes := w])"
    using Cons.prems loop_collect_one [of bytes expect buf "length ws + n" addr code ec w "map uint ws @ rx"]
    by simp
  also have "\<dots> = modbusReadLoop n addr code ec rx (bytes + 1 + length ws) expect
           (take (bytes + 1) (buf[bytes := w]) @ ws @ drop (bytes + 1 + length ws) (buf[bytes := w]))"
    using Cons.prems by (intro Cons.IH) simp_all
  also have "take (bytes + 1) (buf[bytes := w]) = take bytes buf @ [w]"
    using Cons.prems by (simp add: take_Suc_conv_app_nth)
  finally show ?case by simp
qed

lemma loop_inv_step:
  assumes inv: "loop_inv e code ec len bytes expect buf"
    and len: "e \<le> len" "5 \<le> len" and e: "2 \<le> e"
    and lt: "bytes < expect"
  shows "\<exists>rx' bytes' expect' buf'.
           modbusReadLoop (Suc n) addr code ec rx bytes expect buf
             = modbusReadLoop n addr code ec rx' bytes' expect' buf'
           \<and> loop_inv e code ec len bytes' expect' buf'"
proof -
  obtain c rx' where rd: "stream_read rx = (c, rx')"
    by (cases "stream_read rx")
  have bl: "bytes < length buf"
    using inv lt len by (auto simp: loop_inv_def)
  have none: ?thesis if "c < 0"
  proof -
    have "modbusReadLoop (Suc n) addr code ec rx bytes expect buf
        = modbusReadLoop n addr code ec rx' bytes expect buf"
      using that lt rd by simp
    then show ?thesis using inv by blast
  qed
  have scan: ?thesis if "\<not> c < 0" "bytes = 0" "uint addr \<noteq> c"
  proof -
    have "modbusReadLoop (Suc n) addr code ec rx bytes expect buf
        = modbusReadLoop n addr code ec rx' bytes expect buf"
      using that lt rd by simp
    then show ?thesis using inv by blast
  qed
  have addr: ?thesis if "\<not> c < 0" "bytes = 0" "uint addr = c"
  proof -
    have "modbusReadLoop (Suc n) addr code ec rx bytes expect buf
        = modbusReadLoop n addr code ec rx' 1 expect (buf[0 := word_of_int c])"
      using that lt rd bl by (simp add: store_def)
    moreover have "loop_inv e code ec len 1 expect (buf[0 := word_of_int c])"
      using inv that(2) lt by (simp add: loop_inv_def)
    ultimately show ?thesis by blast
  qed
  have exc: ?thesis if "\<not> c < 0" "bytes = 1" "uint ec = c"
  proof -
    have "word_of_int c = ec"
      using that(3) by (simp flip: that(3))
    then have "modbusReadLoop (Suc n) addr code ec rx bytes expect buf
        = modbusReadLoop n addr code ec rx' 2 5 (buf[1 := ec])"
      using that lt rd bl by (simp add: store_def numeral_2_eq_2)
    moreover have "loop_inv e code ec len 2 5 (buf[1 := ec])"
      using inv that(2) bl len by (simp add: loop_inv_def)
    ultimately show ?thesis by blast
  qed
  have wrong: ?thesis if "\<not> c < 0" "bytes = 1" "uint ec \<noteq> c" "uint code \<noteq> c"
  proof -
    have "modbusReadLoop (Suc n) addr code ec rx bytes expect buf
        = modbusReadLoop n addr code ec rx' 0 expect buf"
      using that lt rd by simp
    moreover have "loop_inv e code ec len 0 expect buf"
      using inv that(2) by (simp add: loop_inv_def)
    ultimately show ?thesis by blast
  qed
  have func: ?thesis if "\<not> c < 0" "bytes = 1" "uint ec \<noteq> c" "uint code = c"
  proof -
    have "word_of_int c = code"
      using that(4) by (simp flip: that(4))
    then have "modbusReadLoop (Suc n) addr code ec rx bytes expect buf
        = modbusReadLoop n addr code ec rx' 2 expect (buf[1 := code])"
      using that lt rd bl by (simp add: store_def numeral_2_eq_2)
    moreover have "loop_inv e code ec len 2 expect (buf[1 := code])"
      using inv that(2) bl lt by (simp add: loop_inv_def)
    ultimately show ?thesis by blast
  qed
  have more: ?thesis if "\<not> c < 0" "2 \<le> bytes"
  proof -
    have "modbusReadLoop (Suc n) addr code ec rx bytes expect buf
        = modbusReadLoop n addr code ec rx' (bytes + 1) expect (buf[bytes := word_of_int c])"
      using that lt rd bl by (simp add: store_def)
    moreover have "loop_inv e code ec len (bytes + 1) expect (buf[bytes := word_of_int c])"
      using inv that(2) lt by (simp add: loop_inv_def)
    ultimately show ?thesis by blast
  qed
  have "bytes = 0 \<or> bytes = 1 \<or> 2 \<le> bytes"
    by arith
  then show ?thesis
    using none scan addr exc wrong func more by blast
qed

lemma loop_total:
  assumes "loop_inv e code ec len bytes expect buf" "e \<le> len" "5 \<le> len" "2 \<le> e"
  shows "\<exists>rx' bytes' expect' buf'.
           modbusReadLoop n addr code ec rx bytes expect buf = Some (rx', bytes', expect', buf')
           \<and> loop_inv e code ec len bytes' expect' buf'"
  using assms
proof (induction n arbitrary: rx bytes expect buf)
  case 0
  then show ?case by simp
next
  case (Suc n)
  show ?case
  proof (cases "bytes < expect")
    case False
    then show ?thesis using Suc.prems by (simp add: loop_done)
  next
    case True
    from loop_inv_step [OF Suc.prems(1) Suc.prems(2) Suc.prems(3) Suc.prems(4) True, of n addr rx]
    obtain rx' bytes' expect' buf' where
      "modbusReadLoop (Suc n) addr code ec rx bytes expect buf
         = modbusReadLoop n addr code ec rx' bytes' expect' buf'"
      "loop_inv e code ec len bytes' expect' buf'"
      by auto
    then show ?thesis
      using Suc.IH [of bytes' expect' buf' rx'] Suc.prems by simp
  qed
qed

lemma crc_bytes_roundtrip:
  "push_bit 8 (ucast (ucast (drop_bit 8 v AND 0xff) :: u8)) OR ucast (ucast (v AND 0xff) :: u8) = (v :: u16)"
proof -
  have m: "(0xff :: u16) = mask 8" by (simp add: mask_eq_exp_minus_1)
  show ?thesis
    unfolding m
    by (rule bit_word_eqI) (auto simp: bit_simps)
qed

lemma bytes_of_append: "n \<le> length xs \<Longrightarrow> bytes_of (xs @ ys) n = take n xs"
  by (simp add: bytes_of_def list_eq_iff_nth_eq nth_append)

lemma crc16modbus_append:
  "n \<le> length xs \<Longrightarrow> crc16modbus (xs @ ys) n = crc16modbus (take n xs) n"
  by (simp add: crc16modbus_def bytes_of_append bytes_of_take)

lemma length_frame_of: "length (frame_of body) = length body + 2"
  by (simp add: frame_of_def)

lemma received_crc_frame_of:
  "received_crc (frame_of body @ rest) (length body + 2) = crc16modbus body (length body)"
  by (simp add: received_crc_def frame_of_def nth_append crc_bytes_roundtrip)

lemma crc16modbus_frame_of:
  "crc16modbus (frame_of body @ rest) (length body) = crc16modbus body (length body)"
  by (simp add: frame_of_def crc16modbus_append)

lemma end_adu_frame_of:
  assumes "\<not> locked b" "buffer b = body @ 0 # 0 # rest" "size' b = length body"
  shows "end_adu b = Some \<lparr>buffer = frame_of body @ rest, size' = length body + 2, locked = True\<rparr>"
  using assms
  by (cases b) (simp add: end_adu_def store_def frame_of_def crc16modbus_append list_update_append Let_def)

lemma read_request_steps:
  "add_u16 0 (new_adu_builder a ReadInputCode)
     = Some \<lparr>buffer = a # 0x04 # 0 # 0 # replicate 21 0, size' = 4, locked = False\<rparr>"
  "add_u16 10 \<lparr>buffer = a # 0x04 # 0 # 0 # replicate 21 0, size' = 4, locked = False\<rparr>
     = Some \<lparr>buffer = a # 0x04 # 0 # 0 # 0 # 0x0A # 0 # 0 # replicate 17 0, size' = 6, locked = False\<rparr>"
  "end_adu \<lparr>buffer = a # 0x04 # 0 # 0 # 0 # 0x0A # 0 # 0 # replicate 17 0, size' = 6, locked = False\<rparr>
     = Some (read_request a)"
proof -
  show "add_u16 0 (new_adu_builder a ReadInputCode)
      = Some \<lparr>buffer = a # 0x04 # 0 # 0 # replicate 21 0, size' = 4, locked = False\<rparr>"
    by (simp add: add_u16_def new_adu_builder_list ReadInputCode_def store_def BufferSize_def
        replicate_unfold)
  show "add_u16 10 \<lparr>buffer = a # 0x04 # 0 # 0 # replicate 21 0, size' = 4, locked = False\<rparr>
      = Some \<lparr>buffer = a # 0x04 # 0 # 0 # 0 # 0x0A # 0 # 0 # replicate 17 0, size' = 6, locked = False\<rparr>"
    by (simp add: add_u16_def store_def BufferSize_def replicate_unfold)
  show "end_adu \<lparr>buffer = a # 0x04 # 0 # 0 # 0 # 0x0A # 0 # 0 # replicate 17 0, size' = 6, locked = False\<rparr>
      = Some (read_request a)"
    unfolding read_request_def
    by (subst end_adu_frame_of [where body = "[a, 0x04, 0, 0, 0, 0x0A]" and rest = "replicate 17 0"])
      simp_all
qed

lemma reset_request_built:
  "end_adu (new_adu_builder a ResetEnergyCode) = Some (reset_request a)"
  unfolding reset_request_def
  by (subst end_adu_frame_of [where body = "[a, 0x42]" and rest = "replicate 21 0"])
    (simp_all add: new_adu_builder_list ResetEnergyCode_def replicate_unfold)

lemma change_request_steps:
  "add_u16 2 (new_adu_builder a WriteCode)
     = Some \<lparr>buffer = a # 0x06 # 0 # 2 # replicate 21 0, size' = 4, locked = False\<rparr>"
  "add_u16 (ucast to) \<lparr>buffer = a # 0x06 # 0 # 2 # replicate 21 0, size' = 4, locked = False\<rparr>
     = Some \<lparr>buffer = a # 0x06 # 0 # 2 # 0 # to # 0 # 0 # replicate 17 0, size' = 6, locked = False\<rparr>"
  "end_adu \<lparr>buffer = a # 0x06 # 0 # 2 # 0 # to # 0 # 0 # replicate 17 0, size' = 6, locked = False\<rparr>
     = Some (change_request a to)"
proof -
  have hi: "ucast (drop_bit 8 (ucast to :: u16) AND 0xff) = (0 :: u8)"
    by (rule bit_word_eqI) (auto simp: bit_simps dest: bit_imp_le_length)
  have m: "(0xff :: u16) = mask 8" by (simp add: mask_eq_exp_minus_1)
  have lo: "ucast ((ucast to :: u16) AND 0xff) = to"
    unfolding m by (rule bit_word_eqI) (auto simp: bit_simps)
  show "add_u16 2 (new_adu_builder a WriteCode)
      = Some \<lparr>buffer = a # 0x06 # 0 # 2 # replicate 21 0, size' = 4, locked = False\<rparr>"
    by (simp add: add_u16_def new_adu_builder_list WriteCode_def store_def BufferSize_def
        replicate_unfold)
  show "add_u16 (ucast to) \<lparr>buffer = a # 0x06 # 0 # 2 # replicate 21 0, size' = 4, locked = False\<rparr>
      = Some \<lparr>buffer = a # 0x06 # 0 # 2 # 0 # to # 0 # 0 # replicate 17 0, size' = 6, locked = False\<rparr>"
    by (simp add: add_u16_def store_def BufferSize_def replicate_unfold hi lo)
  show "end_adu \<lparr>buffer = a # 0x06 # 0 # 2 # 0 # to # 0 # 0 # replicate 17 0, size' = 6, locked = False\<rparr>
      = Some (change_request a to)"
    unfolding change_request_def
    by (subst end_adu_frame_of [where body = "[a, 0x06, 0, 2, 0, to]" and rest = "replicate 17 0"])
      simp_all
qed

declare modbusReadLoop.simps(2) [simp del]

lemma modbusProcess_after_loop:
  assumes "locked request" "modbusExpect request \<noteq> 0"
    and "modbusReadLoop (read_polls env) (address s) (buffer request ! 1)
           (ErrorMask OR buffer request ! 1) (port_rx s) 0 (modbusExpect request)
           (map (uninit_buffer env) [0..<BufferSize]) = Some (rx', bytes, expect, buf)"
    and "bytes = expect \<longrightarrow> 2 \<le> bytes"
  shows "modbusProcess env request cb (s, l) =
    Some (if bytes \<noteq> expect then
            ((debug_msg_p (DebugExpected expect bytes) (exchanged s request rx' bytes buf))
               \<lparr>error := SENSOR_ERROR_OTHER\<rparr>, l)
          else if received_crc buf bytes \<noteq> crc16modbus buf (bytes - 2) then
            ((debug_msg_p (DebugCrcInvalid (crc16modbus buf (bytes - 2)) (received_crc buf bytes))
                (exchanged s request rx' bytes buf))\<lparr>error := SENSOR_ERROR_CRC\<rparr>, l)
          else if buf ! 1 AND ErrorMask \<noteq> 0 then
            (debug_msg_p (DebugException (errorToString (buf ! 2)) (buf ! 2))
               (exchanged s request rx' bytes buf), l)
          else cb buf bytes (exchanged s request rx' bytes buf, l))"
  using assms
  by (auto simp add: modbusProcess_def exchanged_def received_crc_def Let_def)

lemma loop_inv_init: "2 \<le> e \<Longrightarrow> length buf = len \<Longrightarrow> loop_inv e code ec len 0 e buf"
  by (simp add: loop_inv_def)

lemma modbusProcess_loop_total:
  assumes "2 \<le> e" "e \<le> BufferSize"
  shows "\<exists>rx' bytes expect buf.
           modbusReadLoop n addr code ec rx 0 e (map u [0..<BufferSize])
             = Some (rx', bytes, expect, buf)
           \<and> loop_inv e code ec BufferSize bytes expect buf"
  using assms
  by (intro loop_total loop_inv_init) (simp_all add: BufferSize_def)

lemma loop_inv_full: "loop_inv e code ec len bytes expect buf \<Longrightarrow> 2 \<le> e \<Longrightarrow> bytes = expect \<Longrightarrow> 2 \<le> bytes"
  by (auto simp: loop_inv_def)

lemma loop_silence:
  "modbusReadLoop n addr code ec [] bytes expect buf = Some ([], bytes, expect, buf)"
  by (induction n) (simp_all add: stream_read_def modbusReadLoop.simps(2))

lemma loop_frame:
  assumes "code \<noteq> ec" "length tail + 2 = expect" "expect \<le> length buf"
  shows "modbusReadLoop (expect + n) addr code ec (map uint (addr # code # tail) @ rx) 0 expect buf
           = Some (rx, expect, expect, addr # code # tail @ drop expect buf)"
proof -
  have e: "expect + n = Suc (Suc (length tail + n))"
    using assms by simp
  have b: "0 < expect" "1 < expect" "0 < length buf" "1 < length buf"
    using assms by auto
  have "modbusReadLoop (expect + n) addr code ec (map uint (addr # code # tail) @ rx) 0 expect buf
      = modbusReadLoop (length tail + n) addr code ec (map uint tail @ rx) 2 expect
          (buf[0 := addr, 1 := code])"
    using assms(1) b unfolding e by (simp add: loop_address loop_function)
  also have "\<dots> = modbusReadLoop n addr code ec rx (2 + length tail) expect
      (take 2 (buf[0 := addr, 1 := code]) @ tail @ drop (2 + length tail) (buf[0 := addr, 1 := code]))"
    using assms by (intro loop_collect) simp_all
  also have "take 2 (buf[0 := addr, 1 := code]) = [addr, code]"
    using assms by (cases buf; cases "tl buf") (auto simp: numeral_2_eq_2)
  finally show ?thesis
    using assms by (simp add: loop_done add.commute)
qed

lemma loop_exception_frame:
  assumes "2 \<le> expect" "5 \<le> length buf"
  shows "modbusReadLoop (5 + n) addr code ec (map uint [addr, ec, x, lo, hi] @ rx) 0 expect buf
           = Some (rx, 5, 5, [addr, ec, x, lo, hi] @ drop 5 buf)"
proof -
  have e: "5 + n = Suc (Suc (length [x, lo, hi] + n))"
    by simp
  have b: "0 < expect" "1 < expect" "0 < length buf" "1 < length buf"
    using assms by auto
  have "modbusReadLoop (5 + n) addr code ec (map uint [addr, ec, x, lo, hi] @ rx) 0 expect buf
      = modbusReadLoop (length [x, lo, hi] + n) addr code ec (map uint [x, lo, hi] @ rx) 2 5
          (buf[0 := addr, 1 := ec])"
    using b unfolding e by (simp add: loop_address loop_exception)
  also have "\<dots> = modbusReadLoop n addr code ec rx (2 + length [x, lo, hi]) 5
      (take 2 (buf[0 := addr, 1 := ec]) @ [x, lo, hi]
         @ drop (2 + length [x, lo, hi]) (buf[0 := addr, 1 := ec]))"
    using assms by (intro loop_collect) simp_all
  also have "take 2 (buf[0 := addr, 1 := ec]) = [addr, ec]"
    using assms by (cases buf; cases "tl buf") (auto simp: numeral_2_eq_2)
  finally show ?thesis
    by (simp add: loop_done)
qed

lemma frame_of_nth:
  "i < length body \<Longrightarrow> (frame_of body @ rest) ! i = body ! i"
  by (simp add: frame_of_def nth_append)

lemma read_request_facts:
  "locked (read_request a)" "modbusExpect (read_request a) = 25"
  "buffer (read_request a) ! 1 = 0x04" "size' (read_request a) = 8"
  "bytes_of (buffer (read_request a)) 8 = frame_of [a, 0x04, 0, 0, 0, 0x0A]"
  "buffer (read_request a) ! Suc 0 = 0x04"
proof -
  have n: "buffer (read_request a) ! 1 = 0x04" "buffer (read_request a) ! 4 = 0"
    "buffer (read_request a) ! 5 = 0x0A"
    by (simp_all add: read_request_def frame_of_nth)
  show "locked (read_request a)" "size' (read_request a) = 8"
    by (simp_all add: read_request_def)
  show "buffer (read_request a) ! 1 = 0x04" by (rule n)
  then show "buffer (read_request a) ! Suc 0 = 0x04" by simp
  show "modbusExpect (read_request a) = 25"
    unfolding modbusExpect_def n by (simp add: read_request_def ReadInputCode_def)
  show "bytes_of (buffer (read_request a)) 8 = frame_of [a, 0x04, 0, 0, 0, 0x0A]"
    by (simp add: read_request_def bytes_of_append length_frame_of)
qed

lemma error_code_read: "ErrorMask OR (0x04 :: u8) = 0x84"
  by (simp add: ErrorMask_def)

lemma modbusReadValues_process:
  "modbusReadValues env s =
     (case modbusProcess env (read_request (address s)) (readValuesCallback env)
             (s\<lparr>error := SENSOR_ERROR_OK\<rparr>, ()) of
        None \<Rightarrow> None | Some (s', u) \<Rightarrow> Some s')"
  by (simp add: modbusReadValues_def read_request_steps Let_def split: option.splits prod.splits)

lemma exchanged_fields:
  "last_reading (exchanged s request rx bytes buf) = last_reading s"
  "energy_delta (exchanged s request rx bytes buf) = energy_delta s"
  "address (exchanged s request rx bytes buf) = address s"
  "reset_energy (exchanged s request rx bytes buf) = reset_energy s"
  "debug (exchanged s request rx bytes buf) = debug s"
  "error (exchanged s request rx bytes buf) = error s"
  "port_rx (exchanged s request rx bytes buf) = rx"
  "port_tx (exchanged s request rx bytes buf) = port_tx s @ bytes_of (buffer request) (size' request)"
  by (simp_all add: exchanged_def debug_msg_p_def Let_def)

lemma debug_msg_p_fields:
  "last_reading (debug_msg_p m s) = last_reading s"
  "energy_delta (debug_msg_p m s) = energy_delta s"
  "address (debug_msg_p m s) = address s"
  "reset_energy (debug_msg_p m s) = reset_energy s"
  "debug (debug_msg_p m s) = debug s"
  "error (debug_msg_p m s) = error s"
  "port_rx (debug_msg_p m s) = port_rx s"
  "port_tx (debug_msg_p m s) = port_tx s"
  by (simp_all add: debug_msg_p_def)

lemma readValuesCallback_fields:
  "address (fst (readValuesCallback env buf n (s, u))) = address s"
  "reset_energy (fst (readValuesCallback env buf n (s, u))) = reset_energy s"
  "debug (fst (readValuesCallback env buf n (s, u))) = debug s"
  "error (fst (readValuesCallback env buf n (s, u))) = error s"
  "port_rx (fst (readValuesCallback env buf n (s, u))) = port_rx s"
  "port_tx (fst (readValuesCallback env buf n (s, u))) = port_tx s"
  by (simp_all add: readValuesCallback_def debug_msg_p_fields Let_def)

lemma readValuesCallback_invalid:
  "n \<noteq> 25 \<Longrightarrow> readValuesCallback env buf n (s, u) = (debug_msg_p DebugCouldNotParse s, u)"
  by (simp add: readValuesCallback_def parseReading_def Let_def)

text \<open>The outcome of the read exchange, by the result of the loop.\<close>

lemma modbusReadValues_outcome:
  obtains rx' bytes expect buf where
    "modbusReadLoop (read_polls env) (address s) 0x04 0x84 (port_rx s) 0 25
       (map (uninit_buffer env) [0..<BufferSize]) = Some (rx', bytes, expect, buf)"
    "loop_inv 25 0x04 0x84 BufferSize bytes expect buf"
    "modbusReadValues env s =
      Some (fst (let s0 = s\<lparr>error := SENSOR_ERROR_OK\<rparr>; request = read_request (address s) in
          if bytes \<noteq> expect then
            ((debug_msg_p (DebugExpected expect bytes) (exchanged s0 request rx' bytes buf))
               \<lparr>error := SENSOR_ERROR_OTHER\<rparr>, ())
          else if received_crc buf bytes \<noteq> crc16modbus buf (bytes - 2) then
            ((debug_msg_p (DebugCrcInvalid (crc16modbus buf (bytes - 2)) (received_crc buf bytes))
                (exchanged s0 request rx' bytes buf))\<lparr>error := SENSOR_ERROR_CRC\<rparr>, ())
          else if buf ! 1 AND ErrorMask \<noteq> 0 then
            (debug_msg_p (DebugException (errorToString (buf ! 2)) (buf ! 2))
               (exchanged s0 request rx' bytes buf), ())
          else readValuesCallback env buf bytes (exchanged s0 request rx' bytes buf, ())))"
proof -
  let ?s0 = "s\<lparr>error := SENSOR_ERROR_OK\<rparr>"
  obtain rx' bytes expect buf where
    loop: "modbusReadLoop (read_polls env) (address s) 0x04 0x84 (port_rx s) 0 25
       (map (uninit_buffer env) [0..<BufferSize]) = Some (rx', bytes, expect, buf)"
    and inv: "loop_inv 25 0x04 0x84 BufferSize bytes expect buf"
    using modbusProcess_loop_total [of 25 "read_polls env" "address s" "0x04" "0x84" "port_rx s"
        "uninit_buffer env"]
    by (auto simp: BufferSize_def)
  have full: "bytes = expect \<longrightarrow> 2 \<le> bytes"
    using loop_inv_full [OF inv] by simp
  have "modbusReadLoop (read_polls env) (address ?s0) (buffer (read_request (address s)) ! 1)
           (ErrorMask OR buffer (read_request (address s)) ! 1) (port_rx ?s0) 0
           (modbusExpect (read_request (address s)))
           (map (uninit_buffer env) [0..<BufferSize]) = Some (rx', bytes, expect, buf)"
    using loop by (simp add: read_request_facts error_code_read)
  from modbusProcess_after_loop [OF read_request_facts(1) _ this full, of "readValuesCallback env" "()"]
  have "modbusProcess env (read_request (address s)) (readValuesCallback env) (?s0, ()) = Some
     (if bytes \<noteq> expect then
            ((debug_msg_p (DebugExpected expect bytes) (exchanged ?s0 (read_request (address s)) rx' bytes buf))
               \<lparr>error := SENSOR_ERROR_OTHER\<rparr>, ())
          else if received_crc buf bytes \<noteq> crc16modbus buf (bytes - 2) then
            ((debug_msg_p (DebugCrcInvalid (crc16modbus buf (bytes - 2)) (received_crc buf bytes))
                (exchanged ?s0 (read_request (address s)) rx' bytes buf))\<lparr>error := SENSOR_ERROR_CRC\<rparr>, ())
          else if buf ! 1 AND ErrorMask \<noteq> 0 then
            (debug_msg_p (DebugException (errorToString (buf ! 2)) (buf ! 2))
               (exchanged ?s0 (read_request (address s)) rx' bytes buf), ())
          else readValuesCallback env buf bytes (exchanged ?s0 (read_request (address s)) rx' bytes buf, ()))"
    by (simp add: read_request_facts)
  then have "modbusReadValues env s =
      Some (fst (let s0 = s\<lparr>error := SENSOR_ERROR_OK\<rparr>; request = read_request (address s) in
          if bytes \<noteq> expect then
            ((debug_msg_p (DebugExpected expect bytes) (exchanged s0 request rx' bytes buf))
               \<lparr>error := SENSOR_ERROR_OTHER\<rparr>, ())
          else if received_crc buf bytes \<noteq> crc16modbus buf (bytes - 2) then
            ((debug_msg_p (DebugCrcInvalid (crc16modbus buf (bytes - 2)) (received_crc buf bytes))
                (exchanged s0 request rx' bytes buf))\<lparr>error := SENSOR_ERROR_CRC\<rparr>, ())
          else if buf ! 1 AND ErrorMask \<noteq> 0 then
            (debug_msg_p (DebugException (errorToString (buf ! 2)) (buf ! 2))
               (exchanged s0 request rx' bytes buf), ())
          else readValuesCallback env buf bytes (exchanged s0 request rx' bytes buf, ())))"
    by (simp only: modbusReadValues_process Let_def) (simp split: prod.splits)
  with loop inv show ?thesis by (rule that)
qed

lemma example_env_facts:
  "read_polls example_environment = 40"
  "uninit_buffer example_environment = (\<lambda>i. 0xAA)"
  by (simp_all add: example_environment_def)

lemma example_bad_reply_tail:
  "example_bad_reply = 0xF8 # 0x04 # drop 2 example_bad_reply" "length (drop 2 example_bad_reply) + 2 = 25"
  by (simp_all add: example_bad_reply_def)

lemma example_loop_bad_crc:
  "modbusReadLoop 40 0xF8 0x04 0x84 (map uint example_bad_reply) 0 25
     (map (\<lambda>i. 0xAA) [0..<BufferSize]) = Some ([], 25, 25, example_bad_reply)"
proof -
  have "modbusReadLoop (25 + 15) 0xF8 0x04 0x84
          (map uint (0xF8 # 0x04 # drop 2 example_bad_reply) @ []) 0 25
          (map (\<lambda>i. 0xAA) [0..<BufferSize])
      = Some ([], 25, 25, 0xF8 # 0x04 # drop 2 example_bad_reply
              @ drop 25 (map (\<lambda>i. 0xAA) [0..<BufferSize]))"
    by (rule loop_frame) (simp_all add: example_bad_reply_def BufferSize_def)
  then show ?thesis
    by (simp add: example_bad_reply_tail(1) [symmetric] BufferSize_def)
qed

lemma example_bad_crc:
  "received_crc example_bad_reply 25 \<noteq> crc16modbus example_bad_reply (25 - 2)"
  by (simp add: received_crc_def example_bad_reply_def crc_eval)

lemma example_loop_exception:
  "modbusReadLoop 40 0xF8 0x04 0x84 (map uint example_exception_reply) 0 25
     (map (\<lambda>i. 0xAA) [0..<BufferSize])
     = Some ([], 5, 5, example_exception_reply @ replicate 20 0xAA)"
proof -
  have "modbusReadLoop (5 + 35) 0xF8 0x04 0x84
          (map uint [0xF8, 0x84, 0x02, 0x12, 0xF0 :: u8] @ []) 0 25
          (map (\<lambda>i. 0xAA) [0..<BufferSize])
      = Some ([], 5, 5, [0xF8, 0x84, 0x02, 0x12, 0xF0]
              @ drop 5 (map (\<lambda>i. 0xAA) [0..<BufferSize]))"
    by (rule loop_exception_frame) (simp_all add: BufferSize_def)
  moreover have "drop 5 (map (\<lambda>i. 0xAA :: u8) [0..<BufferSize]) = replicate 20 0xAA"
    by (simp add: BufferSize_def list_eq_iff_nth_eq)
  ultimately show ?thesis
    by (simp add: example_exception_reply_def)
qed

lemma example_exception_crc:
  "received_crc (example_exception_reply @ replicate 20 0xAA) 5
     = crc16modbus (example_exception_reply @ replicate 20 0xAA) (5 - 2)"
  "(example_exception_reply @ replicate 20 0xAA) ! 1 AND ErrorMask \<noteq> 0"
  "(example_exception_reply @ replicate 20 0xAA) ! 2 = 0x02"
  by (simp_all add: received_crc_def example_exception_reply_def crc_eval ErrorMask_def)

text \<open>Whole exchanges.\<close>

lemma parseReading_ok: "ok (parseReading u buf 25)"
  by (simp add: parseReading_def Let_def split: prod.splits)

lemma readValuesCallback_reading:
  "last_reading (fst (readValuesCallback env buf 25 (s, u))) = parseReading (uninit_reading env) buf 25"
  using parseReading_ok [of "uninit_reading env" buf]
  by (simp add: readValuesCallback_def Let_def)

lemma frame_of_Cons2:
  "frame_of (a # c # p) =
     a # c # (p @ [ucast (crc16modbus (a # c # p) (length p + 2) AND 0xff),
                   ucast (drop_bit 8 (crc16modbus (a # c # p) (length p + 2)) AND 0xff)])"
  by (simp add: frame_of_def)

lemma frame_of_checks:
  "received_crc (frame_of body) (length body + 2) = crc16modbus (frame_of body) (length body)"
  using received_crc_frame_of [of body "[]"] crc16modbus_frame_of [of body "[]"]
  by simp

lemma loop_resync_frame:
  assumes "junk \<noteq> uint addr" "0 \<le> bad" "bad \<noteq> uint code" "bad \<noteq> uint ec" "code \<noteq> ec"
    and "length body = expect" "2 \<le> length p" "body = addr # code # p" "length buf = expect"
  shows "modbusReadLoop (3 + expect + n) addr code ec
           (junk # uint addr # bad # map uint body @ rx) 0 expect buf
         = Some (rx, expect, expect, body)"
proof -
  have e: "3 + expect + n = Suc (Suc (Suc (expect + n)))"
    by simp
  have b: "0 < expect" "Suc 0 < expect" "0 < length buf"
    using assms by auto
  have "modbusReadLoop (3 + expect + n) addr code ec
           (junk # uint addr # bad # map uint body @ rx) 0 expect buf
      = modbusReadLoop (expect + n) addr code ec (map uint (addr # code # p) @ rx) 0 expect
          (buf[0 := addr])"
    unfolding e using assms(1-4,8) b
    by (simp add: loop_scan_address loop_address loop_wrong_function)
  also have "\<dots> = Some (rx, expect, expect, addr # code # p @ drop expect (buf[0 := addr]))"
    using assms by (intro loop_frame) simp_all
  finally show ?thesis
    using assms by simp
qed

lemma example_reply_frame:
  "example_reply = frame_of (0xF8 # 0x04 # take 21 (drop 2 example_reply))"
  by (simp add: frame_of_def example_reply_def crc_eval)

lemma length_example_reply: "length example_reply = 25"
  by (simp add: example_reply_def)

lemma modbusExpect_code:
  "modbusExpect request \<noteq> 0 \<Longrightarrow>
     buffer request ! 1 = 0x04 \<or> buffer request ! 1 = 0x06 \<or> buffer request ! 1 = 0x42"
  by (auto simp: modbusExpect_def ReadInputCode_def WriteCode_def ResetEnergyCode_def
      split: if_splits)

lemma error_code_differs:
  "modbusExpect request \<noteq> 0 \<Longrightarrow> ErrorMask OR buffer request ! 1 \<noteq> buffer request ! 1"
  using modbusExpect_code [of request] by (auto simp: ErrorMask_def)

lemma exception_bit_set: "(ErrorMask OR c) AND ErrorMask \<noteq> 0"
proof -
  have "bit ((ErrorMask OR c) AND ErrorMask) 7"
    by (simp add: bit_simps ErrorMask_def)
  then show ?thesis by auto
qed

lemma modbusProcess_exception:
  assumes req: "locked request" "2 \<le> modbusExpect request" "modbusExpect request \<le> BufferSize"
    and loop: "modbusReadLoop (read_polls env) (address s) (buffer request ! 1)
           (ErrorMask OR buffer request ! 1) (port_rx s) 0 (modbusExpect request)
           (map (uninit_buffer env) [0..<BufferSize]) = Some (rx', bytes, expect', buf')"
    and second: "2 \<le> bytes" "buf' ! 1 = ErrorMask OR buffer request ! 1"
  shows "expect' = 5"
    and "bytes = 5 \<Longrightarrow> received_crc buf' 5 = crc16modbus buf' 3 \<Longrightarrow>
      modbusProcess env request callback (s, l)
        = Some (debug_msg_p (DebugException (errorToString (buf' ! 2)) (buf' ! 2))
                  (exchanged s request rx' 5 buf'), l)"
proof -
  have "loop_inv (modbusExpect request) (buffer request ! 1) (ErrorMask OR buffer request ! 1)
          BufferSize bytes expect' buf'"
    using modbusProcess_loop_total [OF req(2,3), of "read_polls env" "address s"
        "buffer request ! 1" "ErrorMask OR buffer request ! 1" "port_rx s" "uninit_buffer env"]
      loop by simp
  moreover have "ErrorMask OR buffer request ! 1 \<noteq> buffer request ! 1"
    using req(2) by (intro error_code_differs) simp
  ultimately show e: "expect' = 5"
    using second by (auto simp: loop_inv_def)
  show "modbusProcess env request callback (s, l)
        = Some (debug_msg_p (DebugException (errorToString (buf' ! 2)) (buf' ! 2))
                  (exchanged s request rx' 5 buf'), l)"
    if "bytes = 5" "received_crc buf' 5 = crc16modbus buf' 3"
  proof -
    have "modbusExpect request \<noteq> 0" "bytes = expect' \<longrightarrow> 2 \<le> bytes"
      using req(2) second(1) by simp_all
    from modbusProcess_after_loop [OF req(1) this(1) loop this(2), of callback l]
    show ?thesis
      using that e second(2) exception_bit_set [of "buffer request ! 1"] by simp
  qed
qed

lemma example_exception_frame: "frame_of [0xF8, 0x84, 0x02] = example_exception_reply"
  by (simp add: frame_of_def example_exception_reply_def crc_eval)

lemma modbusProcess_outcome:
  assumes "locked request" "2 \<le> modbusExpect request" "modbusExpect request \<le> BufferSize"
  obtains rx' bytes expect buf where
    "modbusReadLoop (read_polls env) (address s) (buffer request ! 1)
       (ErrorMask OR buffer request ! 1) (port_rx s) 0 (modbusExpect request)
       (map (uninit_buffer env) [0..<BufferSize]) = Some (rx', bytes, expect, buf)"
    "loop_inv (modbusExpect request) (buffer request ! 1) (ErrorMask OR buffer request ! 1)
       BufferSize bytes expect buf"
    "modbusProcess env request cb (s, l) =
      Some (if bytes \<noteq> expect then
            ((debug_msg_p (DebugExpected expect bytes) (exchanged s request rx' bytes buf))
               \<lparr>error := SENSOR_ERROR_OTHER\<rparr>, l)
          else if received_crc buf bytes \<noteq> crc16modbus buf (bytes - 2) then
            ((debug_msg_p (DebugCrcInvalid (crc16modbus buf (bytes - 2)) (received_crc buf bytes))
                (exchanged s request rx' bytes buf))\<lparr>error := SENSOR_ERROR_CRC\<rparr>, l)
          else if buf ! 1 AND ErrorMask \<noteq> 0 then
            (debug_msg_p (DebugException (errorToString (buf ! 2)) (buf ! 2))
               (exchanged s request rx' bytes buf), l)
          else cb buf bytes (exchanged s request rx' bytes buf, l))"
proof -
  obtain rx' bytes expect buf where
    loop: "modbusReadLoop (read_polls env) (address s) (buffer request ! 1)
       (ErrorMask OR buffer request ! 1) (port_rx s) 0 (modbusExpect request)
       (map (uninit_buffer env) [0..<BufferSize]) = Some (rx', bytes, expect, buf)"
    and inv: "loop_inv (modbusExpect request) (buffer request ! 1)
       (ErrorMask OR buffer request ! 1) BufferSize bytes expect buf"
    using modbusProcess_loop_total [OF assms(2,3), of "read_polls env" "address s"
        "buffer request ! 1" "ErrorMask OR buffer request ! 1" "port_rx s" "uninit_buffer env"]
    by auto
  have "modbusExpect request \<noteq> 0" "bytes = expect \<longrightarrow> 2 \<le> bytes"
    using assms(2) loop_inv_full [OF inv] by simp_all
  from loop inv modbusProcess_after_loop [OF assms(1) this(1) loop this(2), of cb l]
  show ?thesis by (rule that)
qed

lemma change_request_facts:
  "locked (change_request a to)" "modbusExpect (change_request a to) = 8"
  "buffer (change_request a to) ! 1 = 0x06" "size' (change_request a to) = 8"
  "bytes_of (buffer (change_request a to)) 8 = frame_of [a, 0x06, 0, 2, 0, to]"
  "buffer (change_request a to) ! Suc 0 = 0x06"
proof -
  have n: "buffer (change_request a to) ! 1 = 0x06"
    by (simp add: change_request_def frame_of_nth)
  show "locked (change_request a to)" "size' (change_request a to) = 8"
    by (simp_all add: change_request_def)
  show "buffer (change_request a to) ! 1 = 0x06" by (rule n)
  then show "buffer (change_request a to) ! Suc 0 = 0x06" by simp
  show "modbusExpect (change_request a to) = 8"
    unfolding modbusExpect_def n
    by (simp add: change_request_def ReadInputCode_def WriteCode_def)
  show "bytes_of (buffer (change_request a to)) 8 = frame_of [a, 0x06, 0, 2, 0, to]"
    by (simp add: change_request_def bytes_of_append length_frame_of)
qed

lemma reset_request_facts:
  "locked (reset_request a)" "modbusExpect (reset_request a) = 4"
  "buffer (reset_request a) ! 1 = 0x42" "size' (reset_request a) = 4"
  "bytes_of (buffer (reset_request a)) 4 = frame_of [a, 0x42]"
  "buffer (reset_request a) ! Suc 0 = 0x42"
proof -
  have n: "buffer (reset_request a) ! 1 = 0x42"
    by (simp add: reset_request_def frame_of_nth)
  show "locked (reset_request a)" "size' (reset_request a) = 4"
    by (simp_all add: reset_request_def)
  show "buffer (reset_request a) ! 1 = 0x42" by (rule n)
  then show "buffer (reset_request a) ! Suc 0 = 0x42" by simp
  show "modbusExpect (reset_request a) = 4"
    unfolding modbusExpect_def n
    by (simp add: reset_request_def ReadInputCode_def WriteCode_def ResetEnergyCode_def)
  show "bytes_of (buffer (reset_request a)) 4 = frame_of [a, 0x42]"
    by (simp add: reset_request_def bytes_of_append length_frame_of)
qed

lemma error_code_write: "ErrorMask OR (0x06 :: u8) = 0x86"
  by (simp add: ErrorMask_def)

lemma modbusChangeAddress_process:
  "to \<noteq> address s \<Longrightarrow>
     modbusChangeAddress env to s =
       modbusProcess env (change_request (address s) to)
         (\<lambda>buf n (s', result). (s', echo_equal (change_request (address s) to) buf n))
         (s, False) \<bind> (\<lambda>(s, result). Some (result, s))"
  by (simp add: modbusChangeAddress_def change_request_steps)

lemma modbusResetEnergy_process:
  "modbusResetEnergy env s =
     modbusProcess env (reset_request (address s))
       (\<lambda>buf n (s', result). (s', echo_equal (reset_request (address s)) buf n))
       (s, False) \<bind> (\<lambda>(s, result). Some (result, s))"
  by (simp add: modbusResetEnergy_def reset_request_built)

text \<open>The outcome of an exchange whose callback compares the reply with the request.\<close>

lemma echo_exchange_outcome:
  assumes "locked request" "2 \<le> modbusExpect request" "modbusExpect request \<le> BufferSize"
  obtains rx' bytes expect buf s' where
    "modbusReadLoop (read_polls env) (address s) (buffer request ! 1)
       (ErrorMask OR buffer request ! 1) (port_rx s) 0 (modbusExpect request)
       (map (uninit_buffer env) [0..<BufferSize]) = Some (rx', bytes, expect, buf)"
    "modbusProcess env request (\<lambda>buf n (s, result). (s, echo_equal request buf n)) (s, False)
       = Some (s', bytes = expect \<and> received_crc buf bytes = crc16modbus buf (bytes - 2)
                    \<and> buf ! 1 AND ErrorMask = 0 \<and> echo_equal request buf bytes)"
    "address s' = address s"
    "port_tx s' = port_tx s @ bytes_of (buffer request) (size' request)"
    "last_reading s' = last_reading s" "energy_delta s' = energy_delta s"
    "bytes = expect \<and> buf ! 1 AND ErrorMask = 0 \<longrightarrow> bytes = modbusExpect request"
proof -
  let ?cb = "\<lambda>buf n (s, result). (s, echo_equal request buf n)"
  obtain rx' bytes expect buf where
    loop: "modbusReadLoop (read_polls env) (address s) (buffer request ! 1)
       (ErrorMask OR buffer request ! 1) (port_rx s) 0 (modbusExpect request)
       (map (uninit_buffer env) [0..<BufferSize]) = Some (rx', bytes, expect, buf)"
    and inv: "loop_inv (modbusExpect request) (buffer request ! 1)
       (ErrorMask OR buffer request ! 1) BufferSize bytes expect buf"
    and out: "modbusProcess env request ?cb (s, False) =
      Some (if bytes \<noteq> expect then
            ((debug_msg_p (DebugExpected expect bytes) (exchanged s request rx' bytes buf))
               \<lparr>error := SENSOR_ERROR_OTHER\<rparr>, False)
          else if received_crc buf bytes \<noteq> crc16modbus buf (bytes - 2) then
            ((debug_msg_p (DebugCrcInvalid (crc16modbus buf (bytes - 2)) (received_crc buf bytes))
                (exchanged s request rx' bytes buf))\<lparr>error := SENSOR_ERROR_CRC\<rparr>, False)
          else if buf ! 1 AND ErrorMask \<noteq> 0 then
            (debug_msg_p (DebugException (errorToString (buf ! 2)) (buf ! 2))
               (exchanged s request rx' bytes buf), False)
          else ?cb buf bytes (exchanged s request rx' bytes buf, False))"
    by (rule modbusProcess_outcome [OF assms, of env s ?cb False])
  let ?s' = "fst (the (modbusProcess env request ?cb (s, False)))"
  have 1: "modbusProcess env request ?cb (s, False)
       = Some (?s', bytes = expect \<and> received_crc buf bytes = crc16modbus buf (bytes - 2)
                    \<and> buf ! 1 AND ErrorMask = 0 \<and> echo_equal request buf bytes)"
    by (simp add: out)
  have 2: "address ?s' = address s"
    "port_tx ?s' = port_tx s @ bytes_of (buffer request) (size' request)"
    "last_reading ?s' = last_reading s" "energy_delta ?s' = energy_delta s"
    by (simp_all add: out exchanged_fields debug_msg_p_fields)
  have "2 \<le> bytes" if "bytes = expect"
    using that loop_inv_full [OF inv] assms(2) by simp
  moreover have "(ErrorMask OR buffer request ! 1) AND ErrorMask \<noteq> 0"
    by (rule exception_bit_set)
  ultimately have 3: "bytes = expect \<and> buf ! 1 AND ErrorMask = 0 \<longrightarrow> bytes = modbusExpect request"
    using inv by (auto simp: loop_inv_def)
  from loop 1 2 3 show ?thesis by (rule that)
qed

lemma flush_fields:
  "address (flush s) = address s" "port_tx (flush s) = port_tx s"
  "port_rx (flush s) = flush_rx (port_rx s)"
  by (simp_all add: flush_def)

lemma modbusChangeAddress_outcome:
  assumes "to \<noteq> address s"
  obtains rx' bytes expect buf r s' where
    "modbusReadLoop (read_polls env) (address s) 0x06 0x86 (port_rx s) 0 8
       (map (uninit_buffer env) [0..<BufferSize]) = Some (rx', bytes, expect, buf)"
    "modbusChangeAddress env to s = Some (r, s')"
    "r = (bytes = expect \<and> received_crc buf bytes = crc16modbus buf (bytes - 2)
          \<and> buf ! 1 AND ErrorMask = 0
          \<and> bytes_of buf bytes = frame_of [address s, 0x06, 0, 2, 0, to])"
    "address s' = address s"
    "port_tx s' = port_tx s @ frame_of [address s, 0x06, 0, 2, 0, to]"
proof -
  let ?request = "change_request (address s) to"
  have req: "locked ?request" "2 \<le> modbusExpect ?request" "modbusExpect ?request \<le> BufferSize"
    by (simp_all add: change_request_facts BufferSize_def)
  obtain rx' bytes expect buf s' where
    loop: "modbusReadLoop (read_polls env) (address s) (buffer ?request ! 1)
       (ErrorMask OR buffer ?request ! 1) (port_rx s) 0 (modbusExpect ?request)
       (map (uninit_buffer env) [0..<BufferSize]) = Some (rx', bytes, expect, buf)"
    and out: "modbusProcess env ?request (\<lambda>buf n (s, result). (s, echo_equal ?request buf n)) (s, False)
       = Some (s', bytes = expect \<and> received_crc buf bytes = crc16modbus buf (bytes - 2)
                    \<and> buf ! 1 AND ErrorMask = 0 \<and> echo_equal ?request buf bytes)"
    and fields: "address s' = address s"
      "port_tx s' = port_tx s @ bytes_of (buffer ?request) (size' ?request)"
    and full: "bytes = expect \<and> buf ! 1 AND ErrorMask = 0 \<longrightarrow> bytes = modbusExpect ?request"
    by (rule echo_exchange_outcome [OF req, of env s])
  let ?r = "bytes = expect \<and> received_crc buf bytes = crc16modbus buf (bytes - 2)
                    \<and> buf ! 1 AND ErrorMask = 0 \<and> echo_equal ?request buf bytes"
  have 1: "modbusReadLoop (read_polls env) (address s) 0x06 0x86 (port_rx s) 0 8
       (map (uninit_buffer env) [0..<BufferSize]) = Some (rx', bytes, expect, buf)"
    using loop by (simp add: change_request_facts error_code_write)
  have 2: "modbusChangeAddress env to s = Some (?r, s')"
    using assms out by (simp add: modbusChangeAddress_process)
  have "echo_equal ?request buf bytes = (bytes_of buf bytes = frame_of [address s, 0x06, 0, 2, 0, to])"
    if "bytes = expect" "buf ! 1 AND ErrorMask = 0"
  proof -
    have "bytes = 8"
      using that full by (simp add: change_request_facts)
    then show ?thesis
      by (auto simp: echo_equal_def change_request_facts)
  qed
  then have 3: "?r = (bytes = expect \<and> received_crc buf bytes = crc16modbus buf (bytes - 2)
          \<and> buf ! 1 AND ErrorMask = 0
          \<and> bytes_of buf bytes = frame_of [address s, 0x06, 0, 2, 0, to])"
    by blast
  have 4: "port_tx s' = port_tx s @ frame_of [address s, 0x06, 0, 2, 0, to]"
    using fields(2) by (simp add: change_request_facts)
  from 1 2 3 fields(1) 4 show ?thesis by (rule that)
qed

lemma modbusResetEnergy_outcome:
  obtains r s' where
    "modbusResetEnergy env s = Some (r, s')" "address s' = address s"
    "port_tx s' = port_tx s @ frame_of [address s, 0x42]"
proof -
  let ?request = "reset_request (address s)"
  have req: "locked ?request" "2 \<le> modbusExpect ?request" "modbusExpect ?request \<le> BufferSize"
    by (simp_all add: reset_request_facts BufferSize_def)
  obtain rx' bytes expect buf s' where
    out: "modbusProcess env ?request (\<lambda>buf n (s, result). (s, echo_equal ?request buf n)) (s, False)
       = Some (s', bytes = expect \<and> received_crc buf bytes = crc16modbus buf (bytes - 2)
                    \<and> buf ! 1 AND ErrorMask = 0 \<and> echo_equal ?request buf bytes)"
    and fields: "address s' = address s"
      "port_tx s' = port_tx s @ bytes_of (buffer ?request) (size' ?request)"
    by (rule echo_exchange_outcome [OF req, of env s])
  show ?thesis
    using out fields by (intro that [of _ s']) (simp_all add: modbusResetEnergy_process reset_request_facts)
qed

lemma example_change_frame: "frame_of [0xF8, 0x06, 0, 2, 0, 0x01] = example_change_echo"
  by (simp add: frame_of_def example_change_echo_def crc_eval)

lemma example_loop_echo:
  "modbusReadLoop 40 0xF8 0x06 0x86 (map uint example_change_echo) 0 8
     (map (\<lambda>i. 0xAA) [0..<BufferSize]) = Some ([], 8, 8, example_change_echo @ replicate 17 0xAA)"
proof -
  have "modbusReadLoop (8 + 32) 0xF8 0x06 0x86
          (map uint (0xF8 # 0x06 # [0x00, 0x02, 0x00, 0x01, 0xFD, 0xA3 :: u8]) @ []) 0 8
          (map (\<lambda>i. 0xAA) [0..<BufferSize])
      = Some ([], 8, 8, 0xF8 # 0x06 # [0x00, 0x02, 0x00, 0x01, 0xFD, 0xA3]
              @ drop 8 (map (\<lambda>i. 0xAA) [0..<BufferSize]))"
    by (rule loop_frame) (simp_all add: BufferSize_def)
  moreover have "drop 8 (map (\<lambda>i. 0xAA :: u8) [0..<BufferSize]) = replicate 17 0xAA"
    by (simp add: BufferSize_def list_eq_iff_nth_eq)
  ultimately show ?thesis
    by (simp add: example_change_echo_def)
qed

lemma example_echo_checks:
  "received_crc (example_change_echo @ replicate 17 0xAA) 8
     = crc16modbus (example_change_echo @ replicate 17 0xAA) (8 - 2)"
  "(example_change_echo @ replicate 17 0xAA) ! 1 AND ErrorMask = 0"
  "bytes_of (example_change_echo @ replicate 17 0xAA) 8 = example_change_echo"
  by (simp_all add: received_crc_def example_change_echo_def crc_eval ErrorMask_def)

subsection \<open>CRC16\<close>

text \<open>
  C1: \<open>crc16modbus\<close> is a function of the first \<open>sz\<close> bytes of its input alone; it
  starts from the register \<open>0xFFFF\<close> and applies, for each byte, eight shift steps with
  the polynomial \<open>0xA001\<close>, so that it agrees with the reference Modbus CRC16 on every
  input. For the bytes \<open>F8 04 00 00 00 0A\<close> both give \<open>0x6464\<close>.
\<close>

theorem crc16modbus_reference:
  "(sz \<le> length data \<longrightarrow>
      unat (crc16modbus data sz) = reference_modbus_crc16 (map unat (take sz data)))
   \<and> crc16modbus [0xF8, 0x04, 0x00, 0x00, 0x00, 0x0A] 6 = 0x6464
   \<and> reference_modbus_crc16 [0xF8, 0x04, 0x00, 0x00, 0x00, 0x0A] = 0x6464"
proof -
  have general: "unat (crc16modbus d n) = reference_modbus_crc16 (map unat (take n d))"
    if "n \<le> length d" for d n
    using that by (simp add: crc16modbus_def reference_modbus_crc16_def bytes_of_take crc16_fold_unat)
  have "reference_modbus_crc16 (map unat (take 6 [0xF8, 0x04, 0x00, 0x00, 0x00, 0x0A :: u8]))
      = unat (0x6464 :: u16)"
    using general [of 6 "[0xF8, 0x04, 0x00, 0x00, 0x00, 0x0A]"] by (simp add: crc_golden)
  then have "reference_modbus_crc16 [0xF8, 0x04, 0x00, 0x00, 0x00, 0x0A] = 0x6464"
    by simp
  then show ?thesis
    using general crc_golden by blast
qed

theorem crc16modbus_reference_witness:
  "unat (crc16modbus [0xF8, 0x04, 0x00, 0x00, 0x00, 0x0A, 0x64, 0x64] 6)
     = reference_modbus_crc16 [0xF8, 0x04, 0x00, 0x00, 0x00, 0x0A]"
  using crc16modbus_reference [of 6 "[0xF8, 0x04, 0x00, 0x00, 0x00, 0x0A, 0x64, 0x64]"]
  by simp

subsection \<open>The reading decoder\<close>

text \<open>
  C2: a reply whose length is not 25 decodes to an invalid reading (\<open>ok\<close> is false and no
  field is assigned); a reply of length 25 is decoded by position from byte 3 on: a
  big-endian 16-bit voltage divided by 10, then current divided by 1000, power divided
  by 10 and energy divided by 1000, each of four bytes with the low 16-bit half first
  and both halves big-endian, then a 16-bit frequency divided by 10, a 16-bit unscaled
  power factor, and the alarm flag, which is true only when bytes 21 and 22 are both
  \<open>0xFF\<close>.
\<close>

theorem parseReading_decodes:
  "parseReading u buf sz =
     (if sz \<noteq> 25 then u\<lparr>ok := False\<rparr>
      else
        \<lparr>voltage = real (256 * unat (buf ! 3) + unat (buf ! 4)) / 10,
         current = real (65536 * (256 * unat (buf ! 7) + unat (buf ! 8))
                          + (256 * unat (buf ! 5) + unat (buf ! 6))) / 1000,
         power_active = real (65536 * (256 * unat (buf ! 11) + unat (buf ! 12))
                          + (256 * unat (buf ! 9) + unat (buf ! 10))) / 10,
         energy_active = real (65536 * (256 * unat (buf ! 15) + unat (buf ! 16))
                          + (256 * unat (buf ! 13) + unat (buf ! 14))) / 1000,
         frequency = real (256 * unat (buf ! 17) + unat (buf ! 18)) / 10,
         power_factor = real (256 * unat (buf ! 19) + unat (buf ! 20)),
         alarm = (buf ! 21 = 0xff \<and> buf ! 22 = 0xff),
         ok = True\<rparr>)"
proof (cases "sz = 25")
  case False
  then show ?thesis by (simp add: parseReading_def)
next
  case True
  have t2: "\<And>i. i \<le> 23 \<Longrightarrow> take_2 buf i = (real (256 * unat (buf ! i) + unat (buf ! (i + 1))), i + 2)"
    by (simp add: take_2_def BufferSize_def unat_half)
  have t4: "\<And>i. i \<le> 21 \<Longrightarrow> take_4 buf i =
      (real (65536 * (256 * unat (buf ! (i + 2)) + unat (buf ! (i + 3)))
              + (256 * unat (buf ! i) + unat (buf ! (i + 1)))), i + 4)"
    by (simp add: take_4_def BufferSize_def unat_word32)
  show ?thesis
    using True by (cases u) (simp add: parseReading_def t2 t4 eq_commute [of "0xff"])
qed


theorem parseReading_decodes_witness:
  "voltage (parseReading example_reading example_reply 25) = 230.0
   \<and> current (parseReading example_reading example_reply 25) = 1.5
   \<and> energy_active (parseReading example_reading example_reply 25) = 12.345
   \<and> ok (parseReading example_reading example_reply 25)
   \<and> \<not> alarm (parseReading example_reading example_reply 25)
   \<and> \<not> ok (parseReading example_reading example_reply 24)"
  using parseReading_decodes [of example_reading example_reply 25]
    parseReading_decodes [of example_reading example_reply 24]
  by (simp add: example_reply_def)

subsection \<open>The energy delta\<close>

text \<open>
  C5: for two cumulative energy samples in \<open>[0, 10000)\<close>, \<open>energyDelta\<close> converts
  \<open>current - previous\<close> when \<open>current \<ge> previous\<close> and \<open>current + (10000 - previous)\<close>
  when the counter has wrapped; the value is in kWh before the conversion \<open>conv\<close> to the
  reporting unit.
\<close>

theorem energyDelta_wraparound:
  "0 \<le> previous \<and> previous < 10000 \<and> 0 \<le> cur \<and> cur < 10000 \<longrightarrow>
     energyDelta conv previous cur =
       conv (if cur \<ge> previous then cur - previous else cur + (10000 - previous))"
  by (simp add: energyDelta_def EnergyMax_def)

theorem energyDelta_wraparound_witness:
  "energyDelta (\<lambda>kwh. kwh) 9999.5 0.2 = 0.7 \<and> energyDelta (\<lambda>kwh. kwh) 100.0 150.0 = 50.0"
  using energyDelta_wraparound [where previous = "9999.5" and cur = "0.2" and conv = "\<lambda>kwh. kwh"]
    energyDelta_wraparound [where previous = "100.0" and cur = "150.0" and conv = "\<lambda>kwh. kwh"]
  by simp


subsection \<open>The expected reply length\<close>

text \<open>
  C6, as amended: for a finalized request, \<open>modbusExpect\<close> returns, for function code
  \<open>0x04\<close> and a request of at least 6 bytes, \<open>3 + 2 * register_count + 2\<close> with the
  register count read big-endian from bytes 4 and 5 of the request buffer; for function
  code \<open>0x04\<close> and a shorter request, zero; for the function codes \<open>0x06\<close> and \<open>0x42\<close>
  the length of the request; for any other function code zero. When it returns zero,
  the exchange engine writes the request and is done.
\<close>

theorem modbusExpect_cases:
  "locked b \<longrightarrow>
     modbusExpect b =
       (if buffer b ! 1 = 0x04 then
          (if 6 \<le> size' b then 3 + 2 * (256 * unat (buffer b ! 4) + unat (buffer b ! 5)) + 2 else 0)
        else if buffer b ! 1 = 0x06 \<or> buffer b ! 1 = 0x42 then size' b
        else 0)
     \<and> (modbusExpect b = 0 \<longrightarrow>
          modbusProcess env b callback (s, l)
            = Some (s\<lparr>port_tx := port_tx s @ bytes_of (buffer b) (size' b)\<rparr>, l))"
  using modbusExpect_eq [of b] modbusProcess_nothing_expected [of b env callback s l]
  by blast

theorem modbusExpect_cases_witness:
  "locked example_read_request \<and> modbusExpect example_read_request = 25
   \<and> locked example_unsupported_request \<and> modbusExpect example_unsupported_request = 0
   \<and> modbusProcess example_environment example_unsupported_request (\<lambda>buf n sl. sl)
        (example_sensor, ())
      = Some (example_sensor\<lparr>port_tx := [0xF8, 0x03, 0x02, 0x71]\<rparr>, ())"
  using modbusExpect_cases [where b = example_read_request and env = example_environment
      and callback = "\<lambda>buf n sl. sl" and s = example_sensor and l = "()"]
    modbusExpect_cases [where b = example_unsupported_request and env = example_environment
      and callback = "\<lambda>buf n sl. sl" and s = example_sensor and l = "()"]
  by (simp add: example_read_request_def example_unsupported_request_def example_sensor_def
      bytes_of_def upt_rec [of _ "numeral _"])

text \<open>
  The claim as stated fails for a finalized read request without a payload: the
  function returns zero, where the formula of the claim gives 5.
\<close>

theorem modbusExpect_short_request_counterexample:
  "end_adu (new_adu_builder 0xF8 ReadInputCode) = Some example_short_request
   \<and> locked example_short_request
   \<and> buffer example_short_request ! 1 = 0x04
   \<and> modbusExpect example_short_request = 0
   \<and> 3 + 2 * (256 * unat (buffer example_short_request ! 4)
               + unat (buffer example_short_request ! 5)) + 2 = (5 :: nat)"
proof -
  have "modbusExpect example_short_request = 0"
    by (simp add: modbusExpect_def example_short_request_def ReadInputCode_def)
  moreover have "buffer example_short_request ! 4 = 0" "buffer example_short_request ! 5 = 0"
    "buffer example_short_request ! 1 = 0x04" "locked example_short_request"
    by (simp_all add: example_short_request_def replicate_unfold)
  ultimately show ?thesis
    using short_request_built by simp
qed

subsection \<open>The request builder\<close>

text \<open>
  C9: the claim has every write of the builder inside the 25-byte buffer. The two
  \<open>add\<close> functions check the size first (\<open>add_u8_total\<close>, \<open>add_u16_total\<close>), but
  \<open>end\<close> does not (\<open>end_adu_bounds\<close>): after 23 one-byte appends the buffer is full, and
  finalizing writes the two CRC bytes at the indices 25 and 26.
\<close>

theorem end_adu_out_of_bounds:
  "adu_run (replicate 23 (Add8 0)) (new_adu_builder 0xF8 ReadInputCode)
     = Some \<lparr>buffer = [0xF8, ReadInputCode] @ replicate 23 0, size' = 25, locked = False\<rparr>
   \<and> adu_run (replicate 23 (Add8 0) @ [End]) (new_adu_builder 0xF8 ReadInputCode) = None"
proof -
  let ?b = "\<lparr>buffer = [0xF8, ReadInputCode] @ replicate 23 0, size' = 25, locked = False\<rparr>"
  have full: "adu_run (replicate 23 (Add8 0)) (new_adu_builder 0xF8 ReadInputCode) = Some ?b"
    using add_u8_fill [of 23 0 "0xF8" ReadInputCode] by simp
  have "end_adu ?b = None"
    by (subst end_adu_bounds) (simp_all add: BufferSize_def)
  then have "adu_run (replicate 23 (Add8 0) @ [End]) (new_adu_builder 0xF8 ReadInputCode) = None"
    using full by (simp only: adu_run_append) simp
  then show ?thesis using full by simp
qed

subsection \<open>The exposed energy delta\<close>

text \<open>
  C8: the claim has the energy delta equal to 0 while no valid reading exists. The
  constructor does not initialise \<^verbatim>\<open>_energy_delta\<close>, and nothing assigns it before the
  second valid reading: a new sensor exposes at index 5 whatever the memory held, here 7.
\<close>

theorem energy_delta_uninitialised:
  "\<not> ok (last_reading (PZEM004TV30Sensor [] 0xF8 example_sensor))
   \<and> sensor_value (PZEM004TV30Sensor [] 0xF8 example_sensor) 5 = 7
   \<and> energy_delta example_sensor = 7"
  by (simp add: PZEM004TV30Sensor_def sensor_value_def example_sensor_def)

subsection \<open>Failed exchanges\<close>

text \<open>
  C7: a read exchange always returns, having written its request. When it fails, because
  the loop ends with a byte count different from the expected length (timeout or
  framing), because the checksum does not match, or because the reply is a protocol
  exception, the last reading and the energy delta are as before, and so is every
  other member but the error, the port and the debug trace; the error is
  \<open>SENSOR_ERROR_OTHER\<close> for the length mismatch and the distinct \<open>SENSOR_ERROR_CRC\<close>
  for the checksum. A decode of a buffer of unexpected length changes the debug trace
  only.
\<close>

theorem failed_exchange_retains_reading:
  "\<exists>rx' bytes expect buf s'.
     modbusReadLoop (read_polls env) (address s) 0x04 0x84 (port_rx s) 0 25
       (map (uninit_buffer env) [0..<BufferSize]) = Some (rx', bytes, expect, buf)
     \<and> modbusReadValues env s = Some s'
     \<and> port_tx s' = port_tx s @ frame_of [address s, 0x04, 0, 0, 0, 0x0A]
     \<and> (bytes \<noteq> expect \<longrightarrow>
           error s' = SENSOR_ERROR_OTHER
           \<and> last_reading s' = last_reading s \<and> energy_delta s' = energy_delta s
           \<and> s'\<lparr>port_rx := port_rx s, port_tx := port_tx s, error := error s,
                 debug_log := debug_log s\<rparr> = s)
     \<and> (bytes = expect \<and> received_crc buf bytes \<noteq> crc16modbus buf (bytes - 2) \<longrightarrow>
           error s' = SENSOR_ERROR_CRC
           \<and> last_reading s' = last_reading s \<and> energy_delta s' = energy_delta s
           \<and> s'\<lparr>port_rx := port_rx s, port_tx := port_tx s, error := error s,
                 debug_log := debug_log s\<rparr> = s)
     \<and> (bytes = expect \<and> received_crc buf bytes = crc16modbus buf (bytes - 2)
           \<and> buf ! 1 AND ErrorMask \<noteq> 0 \<longrightarrow>
           error s' = SENSOR_ERROR_OK
           \<and> last_reading s' = last_reading s \<and> energy_delta s' = energy_delta s
           \<and> s'\<lparr>port_rx := port_rx s, port_tx := port_tx s, error := error s,
                 debug_log := debug_log s\<rparr> = s)
     \<and> (n \<noteq> 25 \<longrightarrow>
           (fst (readValuesCallback env b n (s, ())))\<lparr>debug_log := debug_log s\<rparr> = s)
     \<and> SENSOR_ERROR_CRC \<noteq> SENSOR_ERROR_OTHER"
proof -
  obtain rx' bytes expect buf where
    loop: "modbusReadLoop (read_polls env) (address s) 0x04 0x84 (port_rx s) 0 25
       (map (uninit_buffer env) [0..<BufferSize]) = Some (rx', bytes, expect, buf)"
    and out: "modbusReadValues env s =
      Some (fst (let s0 = s\<lparr>error := SENSOR_ERROR_OK\<rparr>; request = read_request (address s) in
          if bytes \<noteq> expect then
            ((debug_msg_p (DebugExpected expect bytes) (exchanged s0 request rx' bytes buf))
               \<lparr>error := SENSOR_ERROR_OTHER\<rparr>, ())
          else if received_crc buf bytes \<noteq> crc16modbus buf (bytes - 2) then
            ((debug_msg_p (DebugCrcInvalid (crc16modbus buf (bytes - 2)) (received_crc buf bytes))
                (exchanged s0 request rx' bytes buf))\<lparr>error := SENSOR_ERROR_CRC\<rparr>, ())
          else if buf ! 1 AND ErrorMask \<noteq> 0 then
            (debug_msg_p (DebugException (errorToString (buf ! 2)) (buf ! 2))
               (exchanged s0 request rx' bytes buf), ())
          else readValuesCallback env buf bytes (exchanged s0 request rx' bytes buf, ())))"
    by (rule modbusReadValues_outcome [of env s])
  let ?s' = "the (modbusReadValues env s)"
  let ?same = "\<lambda>s'. last_reading s' = last_reading s \<and> energy_delta s' = energy_delta s
    \<and> s'\<lparr>port_rx := port_rx s, port_tx := port_tx s, error := error s,
           debug_log := debug_log s\<rparr> = s"
  have some: "modbusReadValues env s = Some ?s'"
    using out by simp
  have tx: "port_tx ?s' = port_tx s @ frame_of [address s, 0x04, 0, 0, 0, 0x0A]"
    by (simp add: out Let_def exchanged_fields debug_msg_p_fields readValuesCallback_fields
        read_request_facts)
  have restore: "(debug_msg_p m (exchanged (s\<lparr>error := e1\<rparr>) request rx' bytes buf))
      \<lparr>port_rx := port_rx s, port_tx := port_tx s, error := error s, debug_log := debug_log s\<rparr> = s"
    for m e1 request
    by (simp add: exchanged_def debug_msg_p_def Let_def)
  have timeout: "error ?s' = SENSOR_ERROR_OTHER \<and> ?same ?s'" if "bytes \<noteq> expect"
    using that restore
    by (simp add: out Let_def exchanged_fields debug_msg_p_fields)
  have crc: "error ?s' = SENSOR_ERROR_CRC \<and> ?same ?s'"
    if "bytes = expect" "received_crc buf bytes \<noteq> crc16modbus buf (bytes - 2)"
    using that restore
    by (simp add: out Let_def exchanged_fields debug_msg_p_fields)
  have exc: "error ?s' = SENSOR_ERROR_OK \<and> ?same ?s'"
    if "bytes = expect" "received_crc buf bytes = crc16modbus buf (bytes - 2)"
      "buf ! 1 AND ErrorMask \<noteq> 0"
    using that restore
    by (simp add: out Let_def exchanged_fields debug_msg_p_fields)
  have dec: "(fst (readValuesCallback env b n (s, ())))\<lparr>debug_log := debug_log s\<rparr> = s"
    if "n \<noteq> 25"
    using that by (simp add: readValuesCallback_invalid debug_msg_p_def)
  show ?thesis
    using loop some tx timeout crc exc dec by blast
qed

theorem failed_exchange_retains_reading_witness:
  "error (the (modbusReadValues example_environment example_sensor)) = SENSOR_ERROR_OTHER
   \<and> last_reading (the (modbusReadValues example_environment example_sensor)) = example_reading
   \<and> energy_delta (the (modbusReadValues example_environment example_sensor)) = 7
   \<and> error (the (modbusReadValues example_environment
         (example_sensor\<lparr>port_rx := map uint example_bad_reply\<rparr>))) = SENSOR_ERROR_CRC
   \<and> last_reading (the (modbusReadValues example_environment
         (example_sensor\<lparr>port_rx := map uint example_bad_reply\<rparr>))) = example_reading
   \<and> error (the (modbusReadValues example_environment
         (example_sensor\<lparr>port_rx := map uint example_exception_reply\<rparr>))) = SENSOR_ERROR_OK
   \<and> last_reading (the (modbusReadValues example_environment
         (example_sensor\<lparr>port_rx := map uint example_exception_reply\<rparr>))) = example_reading
   \<and> last_reading (fst (readValuesCallback example_environment example_reply 24
         (example_sensor, ()))) = example_reading"
proof -
  let ?env = example_environment
  let ?bad = "example_sensor\<lparr>port_rx := map uint example_bad_reply\<rparr>"
  let ?exc = "example_sensor\<lparr>port_rx := map uint example_exception_reply\<rparr>"
  have s: "address example_sensor = 0xF8" "port_rx example_sensor = []"
    "last_reading example_sensor = example_reading" "energy_delta example_sensor = 7"
    by (simp_all add: example_sensor_def)
  have 1: "error (the (modbusReadValues ?env example_sensor)) = SENSOR_ERROR_OTHER
      \<and> last_reading (the (modbusReadValues ?env example_sensor)) = example_reading
      \<and> energy_delta (the (modbusReadValues ?env example_sensor)) = 7"
    using failed_exchange_retains_reading [of ?env example_sensor 24 example_reply]
    by (auto simp: example_env_facts s loop_silence)
  have 2: "error (the (modbusReadValues ?env ?bad)) = SENSOR_ERROR_CRC
      \<and> last_reading (the (modbusReadValues ?env ?bad)) = example_reading"
    using failed_exchange_retains_reading [of ?env ?bad 24 example_reply] example_bad_crc
    by (auto simp: example_env_facts s example_loop_bad_crc)
  have 3: "error (the (modbusReadValues ?env ?exc)) = SENSOR_ERROR_OK
      \<and> last_reading (the (modbusReadValues ?env ?exc)) = example_reading"
    using failed_exchange_retains_reading [of ?env ?exc 24 example_reply] example_exception_crc
    by (auto simp: example_env_facts s example_loop_exception)
  have "(fst (readValuesCallback ?env example_reply 24 (example_sensor, ())))
      \<lparr>debug_log := debug_log example_sensor\<rparr> = example_sensor"
    using failed_exchange_retains_reading [of ?env example_sensor 24 example_reply]
    by auto
  then have "last_reading ((fst (readValuesCallback ?env example_reply 24 (example_sensor, ())))
      \<lparr>debug_log := debug_log example_sensor\<rparr>) = last_reading example_sensor"
    by (simp only:)
  then have 4: "last_reading (fst (readValuesCallback ?env example_reply 24 (example_sensor, ())))
      = example_reading"
    by (simp add: s)
  show ?thesis
    using 1 2 3 4 by simp
qed

subsection \<open>Resynchronisation\<close>

text \<open>
  C3: while no byte of a frame has been accepted, a byte that differs from the device
  address is discarded and the count stays 0; after an accepted address byte, a second
  byte that is neither the function code nor the function code with bit \<open>0x80\<close> set
  discards the partial frame, and scanning restarts from byte 0. So a stream made of an
  unrelated byte, the address, a wrong function code and then a complete frame with a
  valid checksum leaves the loop with that frame in the buffer, and the read exchange
  decodes it as the new reading.
\<close>

theorem read_loop_resynchronises:
  "(0 < expect \<and> c \<noteq> uint addr \<longrightarrow>
      modbusReadLoop (Suc n) addr code ec (c # rx) 0 expect buf
        = modbusReadLoop n addr code ec rx 0 expect buf)
   \<and> (1 < expect \<and> 0 \<le> c \<and> c \<noteq> uint code \<and> c \<noteq> uint ec \<longrightarrow>
      modbusReadLoop (Suc n) addr code ec (c # rx) 1 expect buf
        = modbusReadLoop n addr code ec rx 0 expect buf)
   \<and> (junk \<noteq> uint (address s) \<and> 0 \<le> bad \<and> bad \<noteq> 0x04 \<and> bad \<noteq> 0x84
        \<and> length payload = 21 \<and> 28 \<le> read_polls env
        \<and> port_rx s = junk # uint (address s) # bad
              # map uint (frame_of (address s # 0x04 # payload)) @ rest \<longrightarrow>
      modbusReadLoop (read_polls env) (address s) 0x04 0x84 (port_rx s) 0 25
          (map (uninit_buffer env) [0..<BufferSize])
        = Some (rest, 25, 25, frame_of (address s # 0x04 # payload))
      \<and> (\<exists>s'. modbusReadValues env s = Some s'
             \<and> last_reading s'
                 = parseReading (uninit_reading env) (frame_of (address s # 0x04 # payload)) 25
             \<and> ok (last_reading s') \<and> error s' = SENSOR_ERROR_OK \<and> port_rx s' = rest))"
proof -
  have resync: "modbusReadLoop (read_polls env) (address s) 0x04 0x84 (port_rx s) 0 25
          (map (uninit_buffer env) [0..<BufferSize])
        = Some (rest, 25, 25, frame_of (address s # 0x04 # payload))
      \<and> (\<exists>s'. modbusReadValues env s = Some s'
             \<and> last_reading s'
                 = parseReading (uninit_reading env) (frame_of (address s # 0x04 # payload)) 25
             \<and> ok (last_reading s') \<and> error s' = SENSOR_ERROR_OK \<and> port_rx s' = rest)"
    if h: "junk \<noteq> uint (address s)" "0 \<le> bad" "bad \<noteq> 0x04" "bad \<noteq> 0x84"
      "length payload = 21" "28 \<le> read_polls env"
      "port_rx s = junk # uint (address s) # bad
              # map uint (frame_of (address s # 0x04 # payload)) @ rest"
  proof -
    let ?frame = "frame_of (address s # 0x04 # payload)"
    have len: "length ?frame = 25"
      using h(5) by (simp add: length_frame_of)
    have polls: "read_polls env = 3 + 25 + (read_polls env - 28)"
      using h(6) by simp
    have "modbusReadLoop (3 + 25 + (read_polls env - 28)) (address s) 0x04 0x84
            (junk # uint (address s) # bad # map uint ?frame @ rest) 0 25
            (map (uninit_buffer env) [0..<BufferSize])
        = Some (rest, 25, 25, ?frame)"
      using h(1-5) len
      by (intro loop_resync_frame [where p = "tl (tl ?frame)"])
        (simp_all add: frame_of_Cons2 BufferSize_def)
    then have loop: "modbusReadLoop (read_polls env) (address s) 0x04 0x84 (port_rx s) 0 25
          (map (uninit_buffer env) [0..<BufferSize]) = Some (rest, 25, 25, ?frame)"
      using polls h(7) by simp
    have crc: "received_crc ?frame 25 = crc16modbus ?frame 23"
      using frame_of_checks [of "address s # 0x04 # payload"] h(5) by simp
    have code: "?frame ! 1 AND ErrorMask = 0"
      by (simp add: frame_of_Cons2 ErrorMask_def)
    obtain rx' bytes expect buf where
      "modbusReadLoop (read_polls env) (address s) 0x04 0x84 (port_rx s) 0 25
         (map (uninit_buffer env) [0..<BufferSize]) = Some (rx', bytes, expect, buf)"
      and out: "modbusReadValues env s =
        Some (fst (let s0 = s\<lparr>error := SENSOR_ERROR_OK\<rparr>; request = read_request (address s) in
          if bytes \<noteq> expect then
            ((debug_msg_p (DebugExpected expect bytes) (exchanged s0 request rx' bytes buf))
               \<lparr>error := SENSOR_ERROR_OTHER\<rparr>, ())
          else if received_crc buf bytes \<noteq> crc16modbus buf (bytes - 2) then
            ((debug_msg_p (DebugCrcInvalid (crc16modbus buf (bytes - 2)) (received_crc buf bytes))
                (exchanged s0 request rx' bytes buf))\<lparr>error := SENSOR_ERROR_CRC\<rparr>, ())
          else if buf ! 1 AND ErrorMask \<noteq> 0 then
            (debug_msg_p (DebugException (errorToString (buf ! 2)) (buf ! 2))
               (exchanged s0 request rx' bytes buf), ())
          else readValuesCallback env buf bytes (exchanged s0 request rx' bytes buf, ())))"
      by (rule modbusReadValues_outcome [of env s])
    with loop have r: "rx' = rest" "bytes = 25" "expect = 25" "buf = ?frame"
      by simp_all
    have "modbusReadValues env s = Some (fst (readValuesCallback env ?frame 25
        (exchanged (s\<lparr>error := SENSOR_ERROR_OK\<rparr>) (read_request (address s)) rest 25 ?frame, ())))"
      unfolding out r using crc code by (simp add: Let_def)
    then show ?thesis
      using loop
      by (simp add: readValuesCallback_reading readValuesCallback_fields exchanged_fields
          parseReading_ok)
  qed
  show ?thesis
    using resync by (simp add: loop_scan_address loop_wrong_function)
qed

theorem read_loop_resynchronises_witness:
  "modbusReadLoop 1 0xF8 0x04 0x84 [0x55] 0 25 example_reply = Some ([], 0, 25, example_reply)
   \<and> modbusReadLoop 1 0xF8 0x04 0x84 [0x03] 1 25 example_reply = Some ([], 0, 25, example_reply)
   \<and> modbusReadLoop 40 0xF8 0x04 0x84 (0x55 # 0xF8 # 0x03 # map uint example_reply) 0 25
         (map (\<lambda>i. 0xAA) [0..<BufferSize]) = Some ([], 25, 25, example_reply)
   \<and> last_reading (the (modbusReadValues example_environment
         (example_sensor\<lparr>port_rx := 0x55 # 0xF8 # 0x03 # map uint example_reply\<rparr>)))
       = parseReading example_reading example_reply 25
   \<and> error (the (modbusReadValues example_environment
         (example_sensor\<lparr>port_rx := 0x55 # 0xF8 # 0x03 # map uint example_reply\<rparr>)))
       = SENSOR_ERROR_OK"
  using read_loop_resynchronises [where expect = 25 and c = "0x55" and addr = "0xF8" and n = 0
      and code = "0x04" and ec = "0x84" and rx = "[]" and buf = example_reply
      and junk = "0x55" and bad = "0x03" and payload = "take 21 (drop 2 example_reply)"
      and env = example_environment and rest = "[]"
      and s = "example_sensor\<lparr>port_rx := 0x55 # 0xF8 # 0x03 # map uint example_reply\<rparr>"]
    read_loop_resynchronises [where expect = 25 and c = "0x03" and addr = "0xF8" and n = 0
      and code = "0x04" and ec = "0x84" and rx = "[]" and buf = example_reply
      and junk = "0x55" and bad = "0x03" and payload = "take 21 (drop 2 example_reply)"
      and env = example_environment and rest = "[]"
      and s = "example_sensor\<lparr>port_rx := 0x55 # 0xF8 # 0x03 # map uint example_reply\<rparr>"]
    example_reply_frame [symmetric]
  by (auto simp: example_sensor_def example_environment_def length_example_reply)

subsection \<open>Exception replies\<close>

text \<open>
  C4: when the second received byte is the function code with bit \<open>0x80\<close> set, the
  expected length becomes 5. In every exchange whose loop ends with that byte at index
  1, five bytes were expected; when five bytes were received and the checksum matches,
  the exchange is traced as an exception with the reason of its code, the callback is
  not invoked and the caller's locals are untouched. Code \<open>0x02\<close> maps to
  \<open>Illegal data address\<close>, and the reply \<open>[address, 0x84, 0x02, crc_lo, crc_hi]\<close> to a
  read request leaves the reading as it was.
\<close>

theorem exception_reply_classified:
  "(1 < expect \<and> 1 < length buf \<longrightarrow>
      modbusReadLoop (Suc n) addr code (ErrorMask OR code) (uint (ErrorMask OR code) # rx) 1 expect buf
        = modbusReadLoop n addr code (ErrorMask OR code) rx 2 5 (buf[1 := ErrorMask OR code]))
   \<and> (locked request \<and> 2 \<le> modbusExpect request \<and> modbusExpect request \<le> BufferSize
        \<and> modbusReadLoop (read_polls env) (address s) (buffer request ! 1)
             (ErrorMask OR buffer request ! 1) (port_rx s) 0 (modbusExpect request)
             (map (uninit_buffer env) [0..<BufferSize]) = Some (rx', bytes, expect', buf')
        \<and> 2 \<le> bytes \<and> buf' ! 1 = ErrorMask OR buffer request ! 1 \<longrightarrow>
      expect' = 5
      \<and> (bytes = 5 \<and> received_crc buf' 5 = crc16modbus buf' 3 \<longrightarrow>
           modbusProcess env request callback (s, l)
             = Some (debug_msg_p (DebugException (errorToString (buf' ! 2)) (buf' ! 2))
                       (exchanged s request rx' 5 buf'), l)))
   \<and> errorToString 0x02 = ''Illegal data address''
   \<and> (port_rx s = map uint (frame_of [address s, 0x84, 0x02]) @ rest \<and> 5 \<le> read_polls env \<longrightarrow>
        (\<exists>s'. modbusReadValues env s = Some s'
           \<and> last_reading s' = last_reading s \<and> energy_delta s' = energy_delta s
           \<and> error s' = SENSOR_ERROR_OK \<and> port_rx s' = rest
           \<and> debug_log s' =
               (if debug s then
                  debug_log s @ [DebugReceived (frame_of [address s, 0x84, 0x02]),
                                 DebugException ''Illegal data address'' 0x02]
                else debug_log s)))"
proof -
  have example: "\<exists>s'. modbusReadValues env s = Some s'
           \<and> last_reading s' = last_reading s \<and> energy_delta s' = energy_delta s
           \<and> error s' = SENSOR_ERROR_OK \<and> port_rx s' = rest
           \<and> debug_log s' =
               (if debug s then
                  debug_log s @ [DebugReceived (frame_of [address s, 0x84, 0x02]),
                                 DebugException ''Illegal data address'' 0x02]
                else debug_log s)"
    if h: "port_rx s = map uint (frame_of [address s, 0x84, 0x02]) @ rest" "5 \<le> read_polls env"
  proof -
    let ?frame = "frame_of [address s, 0x84, 0x02]"
    let ?buf = "?frame @ drop 5 (map (uninit_buffer env) [0..<BufferSize])"
    obtain lo hi where f: "?frame = [address s, 0x84, 0x02, lo, hi]"
      by (simp add: frame_of_def)
    have polls: "read_polls env = 5 + (read_polls env - 5)"
      using h(2) by simp
    have "modbusReadLoop (5 + (read_polls env - 5)) (address s) 0x04 0x84
            (map uint [address s, 0x84, 0x02, lo, hi] @ rest) 0 25
            (map (uninit_buffer env) [0..<BufferSize])
        = Some (rest, 5, 5, [address s, 0x84, 0x02, lo, hi]
                  @ drop 5 (map (uninit_buffer env) [0..<BufferSize]))"
      by (rule loop_exception_frame) (simp_all add: BufferSize_def)
    then have loop: "modbusReadLoop (read_polls env) (address s) 0x04 0x84 (port_rx s) 0 25
          (map (uninit_buffer env) [0..<BufferSize]) = Some (rest, 5, 5, ?buf)"
      using polls h(1) f by simp
    have crc: "received_crc ?buf 5 = crc16modbus ?buf 3"
    proof -
      have "received_crc ?buf (length [address s, 0x84, 0x02] + 2)
          = crc16modbus [address s, 0x84, 0x02] (length [address s, 0x84, 0x02])"
        by (rule received_crc_frame_of)
      moreover have "crc16modbus ?buf (length [address s, 0x84, 0x02])
          = crc16modbus [address s, 0x84, 0x02] (length [address s, 0x84, 0x02])"
        by (rule crc16modbus_frame_of)
      moreover have "length [address s, 0x84, 0x02] + 2 = 5" "length [address s, 0x84, 0x02] = 3"
        by simp_all
      ultimately show ?thesis by (simp only:)
    qed
    have code: "?buf ! 1 AND ErrorMask \<noteq> 0" "?buf ! 2 = 0x02"
      by (simp_all add: f ErrorMask_def)
    have l5: "length ?frame = 5"
      by (simp add: length_frame_of)
    then have "bytes_of ?buf 5 = take 5 ?frame"
      by (intro bytes_of_append) simp
    then have code3: "bytes_of ?buf 5 = ?frame"
      using l5 by simp
    obtain rx' bytes expect buf where
      "modbusReadLoop (read_polls env) (address s) 0x04 0x84 (port_rx s) 0 25
         (map (uninit_buffer env) [0..<BufferSize]) = Some (rx', bytes, expect, buf)"
      and out: "modbusReadValues env s =
        Some (fst (let s0 = s\<lparr>error := SENSOR_ERROR_OK\<rparr>; request = read_request (address s) in
          if bytes \<noteq> expect then
            ((debug_msg_p (DebugExpected expect bytes) (exchanged s0 request rx' bytes buf))
               \<lparr>error := SENSOR_ERROR_OTHER\<rparr>, ())
          else if received_crc buf bytes \<noteq> crc16modbus buf (bytes - 2) then
            ((debug_msg_p (DebugCrcInvalid (crc16modbus buf (bytes - 2)) (received_crc buf bytes))
                (exchanged s0 request rx' bytes buf))\<lparr>error := SENSOR_ERROR_CRC\<rparr>, ())
          else if buf ! 1 AND ErrorMask \<noteq> 0 then
            (debug_msg_p (DebugException (errorToString (buf ! 2)) (buf ! 2))
               (exchanged s0 request rx' bytes buf), ())
          else readValuesCallback env buf bytes (exchanged s0 request rx' bytes buf, ())))"
      by (rule modbusReadValues_outcome [of env s])
    with loop have r: "rx' = rest" "bytes = 5" "expect = 5" "buf = ?buf"
      by simp_all
    have "modbusReadValues env s = Some (debug_msg_p (DebugException (errorToString 0x02) 0x02)
        (exchanged (s\<lparr>error := SENSOR_ERROR_OK\<rparr>) (read_request (address s)) rest 5 ?buf))"
      unfolding out r using crc code(1,2) by (simp add: Let_def)
    then show ?thesis
      using code3
      by (simp add: debug_msg_p_fields exchanged_fields)
        (simp add: debug_msg_p_def exchanged_def errorToString_def Let_def)
  qed
  have general: "expect' = 5
      \<and> (bytes = 5 \<and> received_crc buf' 5 = crc16modbus buf' 3 \<longrightarrow>
           modbusProcess env request callback (s, l)
             = Some (debug_msg_p (DebugException (errorToString (buf' ! 2)) (buf' ! 2))
                       (exchanged s request rx' 5 buf'), l))"
    if "locked request" "2 \<le> modbusExpect request" "modbusExpect request \<le> BufferSize"
      "modbusReadLoop (read_polls env) (address s) (buffer request ! 1)
             (ErrorMask OR buffer request ! 1) (port_rx s) 0 (modbusExpect request)
             (map (uninit_buffer env) [0..<BufferSize]) = Some (rx', bytes, expect', buf')"
      "2 \<le> bytes" "buf' ! 1 = ErrorMask OR buffer request ! 1"
    using modbusProcess_exception(1) [OF that]
      modbusProcess_exception(2) [OF that, where callback = callback and l = l] by simp
  have step: "modbusReadLoop (Suc n) addr code (ErrorMask OR code) (uint (ErrorMask OR code) # rx) 1 expect buf
        = modbusReadLoop n addr code (ErrorMask OR code) rx 2 5 (buf[1 := ErrorMask OR code])"
    if "1 < expect" "1 < length buf"
    using that by (simp add: loop_exception)
  have "errorToString 0x02 = ''Illegal data address''"
    by (simp add: errorToString_def)
  then show ?thesis
    using example general step by blast
qed

theorem exception_reply_classified_witness:
  "modbusReadLoop 1 0xF8 0x04 0x84 [0x84] 1 25 example_reply
     = Some ([], 2, 5, example_reply[1 := 0x84])
   \<and> modbusProcess example_environment (read_request 0xF8) (\<lambda>buf n sl. sl)
         (example_sensor\<lparr>port_rx := map uint example_exception_reply\<rparr>, ())
       = Some (debug_msg_p (DebugException ''Illegal data address'' 0x02)
                 (exchanged (example_sensor\<lparr>port_rx := map uint example_exception_reply\<rparr>)
                    (read_request 0xF8) [] 5 (example_exception_reply @ replicate 20 0xAA)), ())
   \<and> last_reading (the (modbusReadValues example_environment
         (example_sensor\<lparr>port_rx := map uint example_exception_reply\<rparr>))) = example_reading
   \<and> debug_log (the (modbusReadValues example_environment
         (example_sensor\<lparr>port_rx := map uint example_exception_reply\<rparr>)))
       = [DebugReceived example_exception_reply, DebugException ''Illegal data address'' 0x02]"
proof -
  let ?s = "example_sensor\<lparr>port_rx := map uint example_exception_reply\<rparr>"
  let ?buf = "example_exception_reply @ replicate 20 0xAA"
  have s: "address ?s = 0xF8" "port_rx ?s = map uint example_exception_reply"
    "last_reading ?s = example_reading" "debug ?s" "debug_log ?s = []"
    by (simp_all add: example_sensor_def)
  have loop: "modbusReadLoop (read_polls example_environment) (address ?s)
      (buffer (read_request 0xF8) ! 1) (ErrorMask OR buffer (read_request 0xF8) ! 1)
      (port_rx ?s) 0 (modbusExpect (read_request 0xF8))
      (map (uninit_buffer example_environment) [0..<BufferSize]) = Some ([], 5, 5, ?buf)"
    using example_loop_exception
    by (simp add: s example_env_facts read_request_facts error_code_read)
  have second: "?buf ! 1 = ErrorMask OR buffer (read_request 0xF8) ! 1"
    by (simp add: read_request_facts error_code_read example_exception_reply_def)
  have crc: "received_crc ?buf 5 = crc16modbus ?buf 3" "?buf ! 2 = 0x02"
    using example_exception_crc by simp_all
  have len: "length example_reply = 25"
    by (rule length_example_reply)
  note inst = exception_reply_classified [where expect = 25 and buf = example_reply and n = 0
      and addr = "0xF8" and code = "0x04" and rx = "[]" and request = "read_request 0xF8"
      and env = example_environment and s = ?s and rx' = "[]" and bytes = 5 and expect' = 5
      and buf' = ?buf and callback = "\<lambda>buf n sl. sl" and l = "()" and rest = "[]"]
  have 1: "modbusReadLoop 1 0xF8 0x04 0x84 [0x84] 1 25 example_reply
     = Some ([], 2, 5, example_reply[1 := 0x84])"
    using inst len by (simp add: error_code_read)
  have 2: "modbusProcess example_environment (read_request 0xF8) (\<lambda>buf n sl. sl) (?s, ())
       = Some (debug_msg_p (DebugException ''Illegal data address'' 0x02)
                 (exchanged ?s (read_request 0xF8) [] 5 ?buf), ())"
    using inst loop second crc by (simp add: read_request_facts BufferSize_def)
  have 3: "last_reading (the (modbusReadValues example_environment ?s)) = example_reading
    \<and> debug_log (the (modbusReadValues example_environment ?s))
       = [DebugReceived example_exception_reply, DebugException ''Illegal data address'' 0x02]"
    using inst by (auto simp: s example_env_facts example_exception_frame)
  show ?thesis
    using 1 2 3 by simp
qed

subsection \<open>Changing the address\<close>

text \<open>
  C10: the address command, for a target different from the stored address, sends a
  request built with the stored address and answers OK exactly when the exchange
  succeeds with the reply equal to the request; the stored address is the target in
  that case and unchanged otherwise. Every request of the driver starts with the
  address stored at that moment.
\<close>

theorem address_changes_only_after_echo:
  "(updated \<noteq> address s \<longrightarrow>
      (\<exists>rx' bytes expect buf r s'.
         modbusReadLoop (read_polls env) (address s) 0x06 0x86 (flush_rx (port_rx s)) 0 8
           (map (uninit_buffer env) [0..<BufferSize]) = Some (rx', bytes, expect, buf)
         \<and> addressCommand env updated s = Some (r, s')
         \<and> r = (bytes = expect \<and> received_crc buf bytes = crc16modbus buf (bytes - 2)
                \<and> buf ! 1 AND ErrorMask = 0
                \<and> bytes_of buf bytes = frame_of [address s, 0x06, 0, 2, 0, updated])
         \<and> address s' = (if r then updated else address s)
         \<and> port_tx s' = port_tx s @ frame_of [address s, 0x06, 0, 2, 0, updated]))
   \<and> (\<exists>s'. modbusReadValues env s = Some s'
          \<and> port_tx s' = port_tx s @ frame_of [address s, 0x04, 0, 0, 0, 0x0A])
   \<and> (\<exists>r s'. modbusResetEnergy env s = Some (r, s')
          \<and> port_tx s' = port_tx s @ frame_of [address s, 0x42])
   \<and> (to \<noteq> address s \<longrightarrow>
        (\<exists>r s'. modbusChangeAddress env to s = Some (r, s') \<and> address s' = address s
           \<and> port_tx s' = port_tx s @ frame_of [address s, 0x06, 0, 2, 0, to]))"
proof -
  have command: "\<exists>rx' bytes expect buf r s'.
         modbusReadLoop (read_polls env) (address s) 0x06 0x86 (flush_rx (port_rx s)) 0 8
           (map (uninit_buffer env) [0..<BufferSize]) = Some (rx', bytes, expect, buf)
         \<and> addressCommand env updated s = Some (r, s')
         \<and> r = (bytes = expect \<and> received_crc buf bytes = crc16modbus buf (bytes - 2)
                \<and> buf ! 1 AND ErrorMask = 0
                \<and> bytes_of buf bytes = frame_of [address s, 0x06, 0, 2, 0, updated])
         \<and> address s' = (if r then updated else address s)
         \<and> port_tx s' = port_tx s @ frame_of [address s, 0x06, 0, 2, 0, updated]"
    if "updated \<noteq> address s"
  proof -
    have "updated \<noteq> address (flush s)"
      using that by (simp add: flush_fields)
    then obtain rx' bytes expect buf r s1 where
      loop: "modbusReadLoop (read_polls env) (address (flush s)) 0x06 0x86 (port_rx (flush s)) 0 8
         (map (uninit_buffer env) [0..<BufferSize]) = Some (rx', bytes, expect, buf)"
      and change: "modbusChangeAddress env updated (flush s) = Some (r, s1)"
      and r: "r = (bytes = expect \<and> received_crc buf bytes = crc16modbus buf (bytes - 2)
          \<and> buf ! 1 AND ErrorMask = 0
          \<and> bytes_of buf bytes = frame_of [address (flush s), 0x06, 0, 2, 0, updated])"
      and fields: "address s1 = address (flush s)"
        "port_tx s1 = port_tx (flush s) @ frame_of [address (flush s), 0x06, 0, 2, 0, updated]"
      by (rule modbusChangeAddress_outcome [of updated "flush s" env])
    let ?s' = "if r then s1\<lparr>address := updated\<rparr> else s1"
    have "addressCommand env updated s = Some (r, ?s')"
      using change by (simp add: addressCommand_def)
    moreover have "address ?s' = (if r then updated else address s)"
      "port_tx ?s' = port_tx s @ frame_of [address s, 0x06, 0, 2, 0, updated]"
      using fields by (simp_all add: flush_fields)
    ultimately show ?thesis
      using loop r by (simp only: flush_fields) blast
  qed
  have reading: "\<exists>s'. modbusReadValues env s = Some s'
          \<and> port_tx s' = port_tx s @ frame_of [address s, 0x04, 0, 0, 0, 0x0A]"
  proof -
    obtain rx' bytes expect buf where
      out: "modbusReadValues env s =
        Some (fst (let s0 = s\<lparr>error := SENSOR_ERROR_OK\<rparr>; request = read_request (address s) in
          if bytes \<noteq> expect then
            ((debug_msg_p (DebugExpected expect bytes) (exchanged s0 request rx' bytes buf))
               \<lparr>error := SENSOR_ERROR_OTHER\<rparr>, ())
          else if received_crc buf bytes \<noteq> crc16modbus buf (bytes - 2) then
            ((debug_msg_p (DebugCrcInvalid (crc16modbus buf (bytes - 2)) (received_crc buf bytes))
                (exchanged s0 request rx' bytes buf))\<lparr>error := SENSOR_ERROR_CRC\<rparr>, ())
          else if buf ! 1 AND ErrorMask \<noteq> 0 then
            (debug_msg_p (DebugException (errorToString (buf ! 2)) (buf ! 2))
               (exchanged s0 request rx' bytes buf), ())
          else readValuesCallback env buf bytes (exchanged s0 request rx' bytes buf, ())))"
      by (rule modbusReadValues_outcome [of env s])
    show ?thesis
      by (simp add: out Let_def exchanged_fields debug_msg_p_fields readValuesCallback_fields
          read_request_facts)
  qed
  have reset: "\<exists>r s'. modbusResetEnergy env s = Some (r, s')
          \<and> port_tx s' = port_tx s @ frame_of [address s, 0x42]"
    using modbusResetEnergy_outcome [of env s] by metis
  have change: "\<exists>r s'. modbusChangeAddress env to s = Some (r, s') \<and> address s' = address s
           \<and> port_tx s' = port_tx s @ frame_of [address s, 0x06, 0, 2, 0, to]"
    if "to \<noteq> address s"
    using modbusChangeAddress_outcome [OF that, of env] by metis
  show ?thesis
    using command reading reset change by blast
qed

theorem address_changes_only_after_echo_witness:
  "fst (the (addressCommand example_environment 0x01
          (example_sensor\<lparr>port_rx := - 1 # map uint example_change_echo\<rparr>)))
   \<and> address (snd (the (addressCommand example_environment 0x01
          (example_sensor\<lparr>port_rx := - 1 # map uint example_change_echo\<rparr>)))) = 0x01
   \<and> \<not> fst (the (addressCommand example_environment 0x01 example_sensor))
   \<and> address (snd (the (addressCommand example_environment 0x01 example_sensor))) = 0xF8
   \<and> port_tx (snd (the (addressCommand example_environment 0x01 example_sensor)))
       = example_change_echo
   \<and> port_tx (snd (the (modbusChangeAddress example_environment 0x01 example_sensor)))
       = example_change_echo"
proof -
  let ?env = example_environment
  let ?echo = "example_sensor\<lparr>port_rx := - 1 # map uint example_change_echo\<rparr>"
  have s: "address example_sensor = 0xF8" "port_rx example_sensor = []"
    "port_tx example_sensor = []"
    by (simp_all add: example_sensor_def)
  have 1: "fst (the (addressCommand ?env 0x01 ?echo))
      \<and> address (snd (the (addressCommand ?env 0x01 ?echo))) = 0x01"
    using address_changes_only_after_echo [where updated = "0x01" and s = ?echo and env = ?env
        and to = "0x01"]
      example_echo_checks
    by (auto simp: example_env_facts s example_loop_echo example_change_frame)
  have 2: "\<not> fst (the (addressCommand ?env 0x01 example_sensor))
      \<and> address (snd (the (addressCommand ?env 0x01 example_sensor))) = 0xF8
      \<and> port_tx (snd (the (addressCommand ?env 0x01 example_sensor))) = example_change_echo
      \<and> port_tx (snd (the (modbusChangeAddress ?env 0x01 example_sensor))) = example_change_echo"
    using address_changes_only_after_echo [where updated = "0x01" and s = example_sensor
        and env = ?env and to = "0x01"]
    by (auto simp: example_env_facts s loop_silence example_change_frame)
  show ?thesis
    using 1 2 by simp
qed

end
